theory Spec2Isabelle
  imports Main
begin

section \<open>The three revisions of SimpleServer\<close>

text \<open>
  The repository holds three copies of the class \<open>SimpleServer\<close>:
  \<^item> \<open>SimpleServer_ts\<close>: \<^verbatim>\<open>src/src/SimpleServer.ts\<close> (fixed 15 s readiness timeout, the
    status bar is created after the auto start);
  \<^item> \<open>Part000_logger\<close>: \<^verbatim>\<open>src/unnamed/part_000\<close>, lines 121-322 (with \<open>logger\<close>);
  \<^item> \<open>Part000_plain\<close>: \<^verbatim>\<open>src/unnamed/part_000\<close>, lines 369-548 (without \<open>logger\<close>).
  An operation whose text differs between the copies takes the revision as its first
  argument and branches on it exactly where the texts differ; \<open>stop\<close>, \<open>dispose\<close> and the
  class \<open>StatusBar\<close> are the same in all three.

  \<open>start\<close>, \<open>_startTask\<close>, \<open>_detectServer\<close>, \<open>_navigateCurrentPage\<close> and \<open>_openUrl\<close> are \<open>async\<close>:
  each runs until it reaches an \<open>await\<close> and goes on when the awaited promise settles, and
  any other event can be handled in between. The model keeps the calls that wait as frames
  and lets a history of events decide the order.
\<close>

datatype revision = SimpleServer_ts | Part000_logger | Part000_plain

section \<open>The host (vscode) as the controller sees it\<close>

text \<open>A terminal of \<open>window.terminals\<close>: its name and its \<open>exitStatus\<close> (\<open>None\<close> is
  \<open>undefined\<close>, the terminal has not exited; \<open>Some c\<close> carries the exit code).\<close>

record Terminal =
  name :: string
  exitStatus :: "int option"

datatype ListenerKind = OnDidEndTask | OnDidCloseTerminal | OnDidChangeActiveTextEditor

text \<open>Every \<open>Disposable\<close> the controller can hold: an event subscription handed out by the
  host, a terminal adopted by \<open>_startTask\<close>, or the object literal around a task execution
  whose \<open>dispose\<close> calls \<open>execution.terminate()\<close>.\<close>

datatype Disposable =
    Subscription ListenerKind nat
  | TerminalHandle Terminal
  | ExecutionHandle nat

text \<open>The part of the host that the controller only reads. A tab is represented by its label,
  a document by the string of its uri; \<open>getWorkspaceFolder\<close> is \<open>workspace.getWorkspaceFolder\<close>.\<close>

record host =
  terminals :: "Terminal list"
  tabGroups :: "string list list"
  activeTextEditor :: "string option"
  getWorkspaceFolder :: "string \<Rightarrow> string option"

datatype ViewColumn = Active | Beside

section \<open>StatusBar\<close>

record StatusBarInfo =
  text' :: string
  tooltip :: "string option"
  command :: "string option"
  color :: "string option"
  backgroundColor :: "string option"

record StatusBarItem = StatusBarInfo +
  shown :: bool
  itemDisposed :: bool

record StatusBarConfig =
  priority :: "int option"
  started :: StatusBarInfo
  spinning :: StatusBarInfo
  stopped :: StatusBarInfo

datatype StatusBarState = Started | Spinning | Stopped

record StatusBar =
  sbOpt :: StatusBarConfig
  state :: StatusBarState
  statusBarItem :: StatusBarItem

text \<open>\<open>this.opt[this.state]\<close>\<close>

fun configOf :: "StatusBarConfig \<Rightarrow> StatusBarState \<Rightarrow> StatusBarInfo" where
  "configOf c Started = started c"
| "configOf c Spinning = spinning c"
| "configOf c Stopped = stopped c"

definition updateInfo :: "StatusBar \<Rightarrow> StatusBar" where
  "updateInfo sb =
     (let config = configOf (sbOpt sb) (state sb)
      in sb\<lparr>statusBarItem := (statusBarItem sb)
           \<lparr>text' := text' config,
            tooltip := tooltip config,
            command := command config,
            color := color config,
            backgroundColor := backgroundColor config\<rparr>\<rparr>)"

definition StatusBar_started :: "StatusBar \<Rightarrow> StatusBar" where
  "StatusBar_started sb = updateInfo (sb\<lparr>state := Started\<rparr>)"

definition StatusBar_spinning :: "StatusBar \<Rightarrow> StatusBar" where
  "StatusBar_spinning sb = updateInfo (sb\<lparr>state := Spinning\<rparr>)"

definition StatusBar_stopped :: "StatusBar \<Rightarrow> StatusBar" where
  "StatusBar_stopped sb = updateInfo (sb\<lparr>state := Stopped\<rparr>)"

definition StatusBar_dispose :: "StatusBar \<Rightarrow> StatusBar" where
  "StatusBar_dispose sb = sb\<lparr>statusBarItem := (statusBarItem sb)\<lparr>itemDisposed := True\<rparr>\<rparr>"

text \<open>The item as \<open>window.createStatusBarItem\<close> returns it: empty and hidden.\<close>

definition createStatusBarItem :: StatusBarItem where
  "createStatusBarItem =
     \<lparr>text' = [], tooltip = None, command = None, color = None, backgroundColor = None,
      shown = False, itemDisposed = False\<rparr>"

text \<open>The constructor: the field initialiser \<open>state = Stopped\<close>, then \<open>_updateInfo\<close>, then
  \<open>show\<close>.\<close>

definition new_StatusBar :: "StatusBarConfig \<Rightarrow> StatusBar" where
  "new_StatusBar c =
     (let sb = updateInfo \<lparr>sbOpt = c, state = Stopped, statusBarItem = createStatusBarItem\<rparr>
      in sb\<lparr>statusBarItem := (statusBarItem sb)\<lparr>shown := True\<rparr>\<rparr>)"

text \<open>What the badge shows: the five fields that \<open>_updateInfo\<close> writes.\<close>

definition appearance :: "StatusBar \<Rightarrow> StatusBarInfo" where
  "appearance sb =
     \<lparr>text' = text' (statusBarItem sb), tooltip = tooltip (statusBarItem sb),
      command = command (statusBarItem sb), color = color (statusBarItem sb),
      backgroundColor = backgroundColor (statusBarItem sb)\<rparr>"

section \<open>The controller, its pending asynchronous calls and its effects\<close>

record SimpleServerOptions =
  taskName :: string
  autoStart :: "bool option"
  optStatusBar :: "StatusBarConfig option"
  checkTimeout :: "int option"

text \<open>Everything the controller does to the outside, in the order it does it.\<close>

datatype effect =
    GetStartCommand
  | ExecuteTask string string "string list option"
  | ResolveUrl "string option"
  | Fetch string
  | Sleep nat
  | OpenPreview string ViewColumn bool
  | Dispose Disposable
  | Subscribe Disposable
  | CreateStatusBarItem "int option"
  | UpdateInfo StatusBarState
  | ShowItem
  | DisposeItem
  | LoggerInfo string
  | ConsoleWarn string

text \<open>An \<open>async\<close> function that has reached an \<open>await\<close> is a frame: the place where it
  waits. \<open>start\<close> (with \<open>_startTask\<close> and \<open>_detectServer\<close> inlined at their \<open>await\<close>s) waits for
  the command provider, for \<open>tasks.executeTask\<close>, for the promise of \<open>_startTask\<close>, for
  \<open>resolveUrl()\<close> and for \<open>_detectServer(rootUrl)\<close>; \<open>_navigateCurrentPage\<close> waits for
  \<open>resolveUrl(uri)\<close> and for \<open>executeCommand\<close> inside \<open>_openUrl\<close>.\<close>

datatype start_pc =
    AwaitGetStartCommand
  | AwaitExecuteTask
  | AwaitStartTask
  | AwaitRootUrl
  | AwaitDetectServer string

datatype nav_pc =
    AwaitResolveUrl string
  | AwaitOpenUrl string

datatype frame = StartFrame start_pc | NavFrame nav_pc

text \<open>What the host answers when an awaited promise settles. \<open>Det fetch_ok date_now\<close>
  answers a whole run of \<open>_detectServer\<close>: \<open>fetch_ok k\<close> tells whether the \<open>k\<close>-th \<open>fetch\<close>
  succeeds and \<open>date_now k\<close> is the \<open>k\<close>-th reading of \<open>Date.now()\<close> in that run.\<close>

datatype response =
    Cmd string "string list"
  | Exec nat
  | Url "string option"
  | Det "nat \<Rightarrow> bool" "nat \<Rightarrow> int"
  | Tick
  | Rejected

record world =
  disposables :: "Disposable list"
  editorChangeListener :: "Disposable option"
  taskHandler :: "Disposable option"
  currentUrl :: "string option"
  serverStarted :: "bool option"
  statusBar :: "StatusBar option"
  pending :: "frame list"
  trace :: "effect list"
  listeners :: "Disposable list"
  nextId :: nat

text \<open>The fields of the class alone.\<close>

definition controller ::
  "world \<Rightarrow> Disposable list \<times> Disposable option \<times> Disposable option \<times> string option
     \<times> bool option \<times> StatusBar option" where
  "controller w =
     (disposables w, editorChangeListener w, taskHandler w, currentUrl w, serverStarted w,
      statusBar w)"

definition emit :: "effect \<Rightarrow> world \<Rightarrow> world" where
  "emit e w = w\<lparr>trace := trace w @ [e]\<rparr>"

text \<open>\<open>this.logger.info\<close> exists in the logger revision only.\<close>

definition logger_info :: "revision \<Rightarrow> string \<Rightarrow> world \<Rightarrow> world" where
  "logger_info rv msg w = (if rv = Part000_logger then emit (LoggerInfo msg) w else w)"

text \<open>Registering a listener with the host returns a fresh subscription.\<close>

definition subscribe :: "ListenerKind \<Rightarrow> world \<Rightarrow> Disposable \<times> world" where
  "subscribe k w =
     (let d = Subscription k (nextId w)
      in (d, emit (Subscribe d) (w\<lparr>listeners := listeners w @ [d], nextId := Suc (nextId w)\<rparr>)))"

text \<open>\<open>d.dispose()\<close>: a subscription stops being delivered to.\<close>

definition dispose_handle :: "Disposable \<Rightarrow> world \<Rightarrow> world" where
  "dispose_handle d w = emit (Dispose d) (w\<lparr>listeners := removeAll d (listeners w)\<rparr>)"

text \<open>\<open>this.statusBar?.m()\<close> for \<open>m\<close> one of \<open>started\<close>, \<open>spinning\<close>, \<open>stopped\<close>.\<close>

definition statusBar_call :: "(StatusBar \<Rightarrow> StatusBar) \<Rightarrow> world \<Rightarrow> world" where
  "statusBar_call m w =
     (case statusBar w of
        None \<Rightarrow> w
      | Some sb \<Rightarrow> emit (UpdateInfo (state (m sb))) (w\<lparr>statusBar := Some (m sb)\<rparr>))"

definition isStarted :: "world \<Rightarrow> bool" where
  "isStarted w = (editorChangeListener w \<noteq> None)"

text \<open>JavaScript truthiness of a \<open>string | undefined\<close>, as in \<open>if (url)\<close> and
  \<open>if (rootUrl)\<close> of \<^verbatim>\<open>part_000\<close>.\<close>

fun truthy :: "string option \<Rightarrow> bool" where
  "truthy None = False"
| "truthy (Some u) = (u \<noteq> [])"

section \<open>stop\<close>

definition stop :: "world \<Rightarrow> world" where
  "stop w =
     (let w1 = (case editorChangeListener w of None \<Rightarrow> w | Some d \<Rightarrow> dispose_handle d w);
          w2 = w1\<lparr>editorChangeListener := None\<rparr>;
          w3 = (case taskHandler w2 of None \<Rightarrow> w2 | Some d \<Rightarrow> dispose_handle d w2);
          w4 = w3\<lparr>taskHandler := None\<rparr>;
          w5 = w4\<lparr>currentUrl := None\<rparr>;
          w6 = w5\<lparr>serverStarted := None\<rparr>
      in statusBar_call StatusBar_stopped w6)"

section \<open>_openUrl and _navigateCurrentPage\<close>

definition hasSimpleBrowserOpened :: "host \<Rightarrow> bool" where
  "hasSimpleBrowserOpened h =
     (find (\<lambda>group. find (\<lambda>t. t = ''Simple Browser'') group \<noteq> None) (tabGroups h) \<noteq> None)"

text \<open>\<open>_openUrl\<close> up to its \<open>await\<close>: the new world and, if \<open>executeCommand\<close> was called, the
  frame that waits for it.\<close>

definition openUrl :: "revision \<Rightarrow> host \<Rightarrow> string \<Rightarrow> world \<Rightarrow> world \<times> nav_pc option" where
  "openUrl rv h url w =
     (let opened = hasSimpleBrowserOpened h;
          w1 = logger_info rv ''Simple Browser opened status:'' w
      in if currentUrl w1 = Some url \<and> opened then (w1, None)
         else
           let w2 = (if serverStarted w1 = Some True then w1\<lparr>currentUrl := Some url\<rparr> else w1)
           in (emit (OpenPreview url Beside True) w2, Some (AwaitOpenUrl url)))"

text \<open>\<open>_navigateCurrentPage\<close> up to \<open>await this.opt.resolveUrl(uri)\<close>; the call is never awaited
  by its callers, so the frame is added to the pending ones.\<close>

definition navigateCurrentPage :: "revision \<Rightarrow> host \<Rightarrow> world \<Rightarrow> world" where
  "navigateCurrentPage rv h w =
     (case activeTextEditor h of
        None \<Rightarrow> w
      | Some uri \<Rightarrow>
          if rv = SimpleServer_ts \<and> getWorkspaceFolder h uri = None then w
          else (emit (ResolveUrl (Some uri)) w)
                 \<lparr>pending := pending w @ [NavFrame (AwaitResolveUrl uri)]\<rparr>)"

text \<open>Resuming \<open>_navigateCurrentPage\<close>. The result is \<open>None\<close> when the answer is not one the
  awaited promise can give (\<open>resolveUrl\<close> of \<^verbatim>\<open>SimpleServer.ts\<close> is typed
  \<open>Thenable<string>\<close>); otherwise the new world and the frame the call waits in next, if any.
  A rejection ends the call; only the logger revision catches the one of \<open>executeCommand\<close>.\<close>

fun resume_nav ::
  "revision \<Rightarrow> host \<Rightarrow> nav_pc \<Rightarrow> response \<Rightarrow> world \<Rightarrow> (world \<times> nav_pc option) option" where
  "resume_nav rv h (AwaitResolveUrl uri) (Url r) w =
     (let w1 = logger_info rv ''Resolved url:'' w
      in case r of
           None \<Rightarrow> (if rv = SimpleServer_ts then None else Some (w1, None))
         | Some url \<Rightarrow>
             (if rv = SimpleServer_ts \<or> truthy r then Some (openUrl rv h url w1)
              else Some (w1, None)))"
| "resume_nav rv h (AwaitResolveUrl uri) Rejected w = Some (w, None)"
| "resume_nav rv h (AwaitOpenUrl url) Tick w =
     Some (logger_info rv ''Simple Browser opened with url:'' w, None)"
| "resume_nav rv h (AwaitOpenUrl url) Rejected w =
     Some (logger_info rv ''Simple Browser open url failed'' w, None)"
| "resume_nav rv h pc r w = None"

section \<open>_detectServer\<close>

text \<open>The timeout: \<open>15 * 1000\<close> in \<^verbatim>\<open>SimpleServer.ts\<close>, \<open>this.opt.checkTimeout ?? 10_000\<close> in
  \<^verbatim>\<open>part_000\<close>.\<close>

definition timeoutMs :: "revision \<Rightarrow> SimpleServerOptions \<Rightarrow> int" where
  "timeoutMs rv opt =
     (if rv = SimpleServer_ts then 15 * 1000
      else case checkTimeout opt of None \<Rightarrow> 10000 | Some t \<Rightarrow> t)"

text \<open>What the \<open>catch\<close> block of the loop does.\<close>

definition fetch_failed :: "revision \<Rightarrow> effect list" where
  "fetch_failed rv =
     (case rv of
        SimpleServer_ts \<Rightarrow> []
      | Part000_logger \<Rightarrow> [LoggerInfo ''VitePress server is not ready yet...'']
      | Part000_plain \<Rightarrow> [ConsoleWarn ''fetch url failed''])"

text \<open>The \<open>while (now < maxTime)\<close> loop. \<open>k\<close> counts the probes made so far, \<open>now\<close> is the
  last reading of the clock, \<open>acc\<close> the effects so far. The result is the returned boolean,
  the effects, and the last reading of the clock. The loop need not end (a clock that does
  not advance, an endpoint that never answers), hence the option.\<close>

partial_function (option) detect_loop ::
  "revision \<Rightarrow> string \<Rightarrow> (nat \<Rightarrow> bool) \<Rightarrow> (nat \<Rightarrow> int) \<Rightarrow> int \<Rightarrow> nat \<Rightarrow> int \<Rightarrow> effect list
     \<Rightarrow> (bool \<times> effect list \<times> int) option" where
  "detect_loop rv url fetch_ok date_now maxTime k now acc =
     (if now < maxTime then
        (if fetch_ok k then Some (True, acc @ [Fetch url], now)
         else detect_loop rv url fetch_ok date_now maxTime (Suc k) (date_now (Suc k))
                (acc @ [Fetch url] @ fetch_failed rv @ [Sleep 500]))
      else Some (rv \<noteq> SimpleServer_ts, acc, now))"

declare detect_loop.simps [code]

definition detectServer ::
  "revision \<Rightarrow> SimpleServerOptions \<Rightarrow> string \<Rightarrow> (nat \<Rightarrow> bool) \<Rightarrow> (nat \<Rightarrow> int)
     \<Rightarrow> (bool \<times> effect list \<times> int) option" where
  "detectServer rv opt url fetch_ok date_now =
     (let now = date_now 0;
          maxTime = now + timeoutMs rv opt
      in detect_loop rv url fetch_ok date_now maxTime 0 now [])"

section \<open>_startTask and start\<close>

text \<open>\<open>_startTask\<close> up to its first \<open>await\<close>, or to its \<open>return\<close> when a terminal is reused:
  then \<open>start\<close> still waits for the promise of \<open>_startTask\<close>.\<close>

definition startTask :: "revision \<Rightarrow> SimpleServerOptions \<Rightarrow> host \<Rightarrow> world \<Rightarrow> world \<times> start_pc" where
  "startTask rv opt h w =
     (let w1 = (if rv = Part000_logger then w\<lparr>currentUrl := None\<rparr> else w);
          existsTask = find (\<lambda>t. name t = taskName opt) (terminals h)
      in case existsTask of
           None \<Rightarrow> (emit GetStartCommand w1, AwaitGetStartCommand)
         | Some t \<Rightarrow>
             if exitStatus t = None
             then (logger_info rv ''Reusing exits task.'' (w1\<lparr>taskHandler := Some (TerminalHandle t)\<rparr>),
                   AwaitStartTask)
             else (emit GetStartCommand w1, AwaitGetStartCommand))"

text \<open>\<open>start\<close> up to its first \<open>await\<close>.\<close>

definition start :: "revision \<Rightarrow> SimpleServerOptions \<Rightarrow> host \<Rightarrow> world \<Rightarrow> world" where
  "start rv opt h w =
     (if isStarted w then w
      else
        let w1 = w\<lparr>serverStarted := Some False\<rparr>;
            w2 = statusBar_call StatusBar_spinning w1;
            (d, w3) = subscribe OnDidChangeActiveTextEditor w2;
            w4 = w3\<lparr>editorChangeListener := Some d\<rparr>;
            w5 = logger_info rv ''Starting server...'' w4;
            (w6, pc) = startTask rv opt h w5
        in w6\<lparr>pending := pending w6 @ [StartFrame pc]\<rparr>)"

text \<open>The last two statements of \<open>start\<close>.\<close>

definition start_finish :: "revision \<Rightarrow> host \<Rightarrow> world \<Rightarrow> world" where
  "start_finish rv h w = statusBar_call StatusBar_started (navigateCurrentPage rv h w)"

text \<open>Resuming \<open>start\<close> at the frame it waits in. A rejected provider, task launch or
  resolver ends the call there (no revision catches it); a failing \<open>fetch\<close> is caught inside
  \<open>_detectServer\<close>. A run of \<open>_detectServer\<close> that does not end leaves \<open>start\<close> waiting.
  The provider of \<^verbatim>\<open>SimpleServer.ts\<close> answers with the command line alone
  (\<open>getStartCommand(): Thenable<string>\<close>), so no shell options reach \<open>ShellExecution\<close> there.
  When \<open>_startTask\<close> has finished, \<open>start\<close> goes on in a later turn (\<open>AwaitStartTask\<close>), also
  when \<open>_startTask\<close> returned without waiting: the caller of \<open>start()\<close> runs first.\<close>

fun resume_start ::
  "revision \<Rightarrow> SimpleServerOptions \<Rightarrow> host \<Rightarrow> start_pc \<Rightarrow> response \<Rightarrow> world
     \<Rightarrow> (world \<times> start_pc option) option" where
  "resume_start rv opt h AwaitGetStartCommand (Cmd commandLine shellOptions) w =
     (let w1 = logger_info rv ''Starting server with command:'' w
      in Some (emit (ExecuteTask (taskName opt) commandLine
                       (if rv = SimpleServer_ts then None else Some shellOptions)) w1,
               Some AwaitExecuteTask))"
| "resume_start rv opt h AwaitGetStartCommand Rejected w = Some (w, None)"
| "resume_start rv opt h AwaitExecuteTask (Exec execution) w =
     Some (w\<lparr>taskHandler := Some (ExecutionHandle execution)\<rparr>, Some AwaitStartTask)"
| "resume_start rv opt h AwaitExecuteTask Rejected w = Some (w, None)"
| "resume_start rv opt h AwaitStartTask Tick w =
     (let w1 = (if rv = SimpleServer_ts then w else w\<lparr>serverStarted := Some True\<rparr>)
      in Some (emit (ResolveUrl None) w1, Some AwaitRootUrl))"
| "resume_start rv opt h AwaitRootUrl (Url rootUrl) w =
     (case rootUrl of
        None \<Rightarrow> (if rv = SimpleServer_ts then None else Some (start_finish rv h w, None))
      | Some u \<Rightarrow>
          (if rv = SimpleServer_ts \<or> truthy rootUrl then Some (w, Some (AwaitDetectServer u))
           else Some (start_finish rv h w, None)))"
| "resume_start rv opt h AwaitRootUrl Rejected w = Some (w, None)"
| "resume_start rv opt h (AwaitDetectServer url) (Det fetch_ok date_now) w =
     (case detectServer rv opt url fetch_ok date_now of
        None \<Rightarrow> None
      | Some (ready, effs, now) \<Rightarrow>
          let w1 = w\<lparr>trace := trace w @ effs\<rparr>;
              w2 = (if rv = SimpleServer_ts then w1\<lparr>serverStarted := Some ready\<rparr> else w1)
          in Some (start_finish rv h w2, None))"
| "resume_start rv opt h pc r w = None"

section \<open>toggle, dispose, the constructor\<close>

definition toggle :: "revision \<Rightarrow> SimpleServerOptions \<Rightarrow> host \<Rightarrow> world \<Rightarrow> world" where
  "toggle rv opt h w = (if isStarted w then stop w else start rv opt h w)"

definition dispose :: "world \<Rightarrow> world" where
  "dispose w =
     (let w1 = stop w;
          w2 = (case statusBar w1 of
                  None \<Rightarrow> w1
                | Some sb \<Rightarrow> emit DisposeItem (w1\<lparr>statusBar := Some (StatusBar_dispose sb)\<rparr>))
      in fold dispose_handle (disposables w2) w2)"

definition addDisposable :: "Disposable \<Rightarrow> world \<Rightarrow> world" where
  "addDisposable t w = w\<lparr>disposables := disposables w @ [t]\<rparr>"

text \<open>The field initialisers of the class.\<close>

definition initial :: world where
  "initial =
     \<lparr>disposables = [], editorChangeListener = None, taskHandler = None, currentUrl = None,
      serverStarted = None, statusBar = None, pending = [], trace = [], listeners = [],
      nextId = 0\<rparr>"

text \<open>\<open>if (opt.statusBar) this.statusBar = new StatusBar(opt.statusBar)\<close>\<close>

definition init_statusBar :: "SimpleServerOptions \<Rightarrow> world \<Rightarrow> world" where
  "init_statusBar opt w =
     (case optStatusBar opt of
        None \<Rightarrow> w
      | Some c \<Rightarrow>
          emit ShowItem (emit (UpdateInfo Stopped) (emit (CreateStatusBarItem (priority c))
            (w\<lparr>statusBar := Some (new_StatusBar c)\<rparr>))))"

definition register :: "ListenerKind \<Rightarrow> world \<Rightarrow> world" where
  "register k w = (let (d, w1) = subscribe k w in addDisposable d w1)"

text \<open>The constructor. \<^verbatim>\<open>part_000\<close> creates the status bar first; \<^verbatim>\<open>SimpleServer.ts\<close>
  creates it last, after the auto start.\<close>

definition construct :: "revision \<Rightarrow> SimpleServerOptions \<Rightarrow> host \<Rightarrow> world" where
  "construct rv opt h =
     (let w0 = (if rv = SimpleServer_ts then initial else init_statusBar opt initial);
          w1 = register OnDidEndTask w0;
          w2 = register OnDidCloseTerminal w1;
          w3 = (if autoStart opt = Some True then start rv opt h w2 else w2)
      in if rv = SimpleServer_ts then init_statusBar opt w3 else w3)"

section \<open>Events\<close>

text \<open>What can happen to a controller: a call of one of its methods, a notification of the
  host, or the settling of a promise that the \<open>i\<close>-th pending frame waits for.\<close>

datatype event =
    CallStart
  | CallStop
  | CallToggle
  | CallDispose
  | TaskEnded string
  | TerminalClosed string
  | ActiveEditorChanged
  | Resume nat response

text \<open>The kind of event a disposable is subscribed to, if it is a subscription.\<close>

fun kindOf :: "Disposable \<Rightarrow> ListenerKind option" where
  "kindOf (Subscription k i) = Some k"
| "kindOf (TerminalHandle t) = None"
| "kindOf (ExecutionHandle e) = None"

text \<open>A notification reaches the handler once for each live subscription of its kind.\<close>

definition deliver :: "ListenerKind \<Rightarrow> (world \<Rightarrow> world) \<Rightarrow> world \<Rightarrow> world" where
  "deliver k handler w = fold (\<lambda>d. handler) (filter (\<lambda>d. kindOf d = Some k) (listeners w)) w"

definition onDidEndTask :: "SimpleServerOptions \<Rightarrow> string \<Rightarrow> world \<Rightarrow> world" where
  "onDidEndTask opt n w = (if n = taskName opt then stop w else w)"

definition onDidCloseTerminal :: "SimpleServerOptions \<Rightarrow> string \<Rightarrow> world \<Rightarrow> world" where
  "onDidCloseTerminal opt n w = (if n = taskName opt then stop w else w)"

text \<open>A frame that goes on stays at its place in the pending list; one that ends is
  removed.\<close>

definition settle :: "nat \<Rightarrow> frame option \<Rightarrow> world \<Rightarrow> world" where
  "settle i f w =
     (case f of
        Some fr \<Rightarrow> w\<lparr>pending := (pending w)[i := fr]\<rparr>
      | None \<Rightarrow> w\<lparr>pending := take i (pending w) @ drop (Suc i) (pending w)\<rparr>)"

definition resume :: "revision \<Rightarrow> SimpleServerOptions \<Rightarrow> host \<Rightarrow> nat \<Rightarrow> response \<Rightarrow> world \<Rightarrow> world" where
  "resume rv opt h i r w =
     (if i < length (pending w) then
        (case pending w ! i of
           StartFrame pc \<Rightarrow>
             (case resume_start rv opt h pc r w of
                None \<Rightarrow> w
              | Some (w1, pc1) \<Rightarrow> settle i (map_option StartFrame pc1) w1)
         | NavFrame pc \<Rightarrow>
             (case resume_nav rv h pc r w of
                None \<Rightarrow> w
              | Some (w1, pc1) \<Rightarrow> settle i (map_option NavFrame pc1) w1))
      else w)"

fun step :: "revision \<Rightarrow> SimpleServerOptions \<Rightarrow> host \<Rightarrow> event \<Rightarrow> world \<Rightarrow> world" where
  "step rv opt h CallStart w = start rv opt h w"
| "step rv opt h CallStop w = stop w"
| "step rv opt h CallToggle w = toggle rv opt h w"
| "step rv opt h CallDispose w = dispose w"
| "step rv opt h (TaskEnded n) w = deliver OnDidEndTask (onDidEndTask opt n) w"
| "step rv opt h (TerminalClosed n) w = deliver OnDidCloseTerminal (onDidCloseTerminal opt n) w"
| "step rv opt h ActiveEditorChanged w =
     deliver OnDidChangeActiveTextEditor (navigateCurrentPage rv h) w"
| "step rv opt h (Resume i r) w = resume rv opt h i r w"

text \<open>A history: each event with the host as it is when the event happens.\<close>

fun run :: "revision \<Rightarrow> SimpleServerOptions \<Rightarrow> (host \<times> event) list \<Rightarrow> world \<Rightarrow> world" where
  "run rv opt [] w = w"
| "run rv opt ((h, e) # es) w = run rv opt es (step rv opt h e w)"

section \<open>Observations used in the statements\<close>

text \<open>The session state of the specification, read off \<open>serverStarted\<close>: \<open>stop\<close> sets it to
  \<open>undefined\<close>, \<open>start\<close> sets it to \<open>false\<close> at its entry and to \<open>true\<close> later.\<close>

datatype SessionState = Session_Stopped | Session_Spinning | Session_Started

definition sessionState :: "world \<Rightarrow> SessionState" where
  "sessionState w =
     (case serverStarted w of
        None \<Rightarrow> Session_Stopped
      | Some b \<Rightarrow> (if b then Session_Started else Session_Spinning))"

text \<open>The invariant of the specification: the editor subscription is there if and only if
  the session is not Stopped.\<close>

definition consistent :: "world \<Rightarrow> bool" where
  "consistent w = (isStarted w = (sessionState w \<noteq> Session_Stopped))"

text \<open>How often an effect has happened so far, and the effects that \<open>w'\<close> has and its
  predecessor \<open>w\<close> has not.\<close>

definition occurrences :: "effect \<Rightarrow> world \<Rightarrow> nat" where
  "occurrences x w = count_list (trace w) x"

definition effects_since :: "world \<Rightarrow> world \<Rightarrow> effect list" where
  "effects_since w w' = drop (length (trace w)) (trace w')"

fun isOpenPreview :: "effect \<Rightarrow> bool" where
  "isOpenPreview (OpenPreview url c f) = True"
| "isOpenPreview e = False"

fun isFetch :: "effect \<Rightarrow> bool" where
  "isFetch (Fetch url) = True"
| "isFetch e = False"

text \<open>The appearances the badge has been given, oldest first.\<close>

fun rendered :: "effect list \<Rightarrow> StatusBarState list" where
  "rendered [] = []"
| "rendered (UpdateInfo s # es) = s # rendered es"
| "rendered (e # es) = rendered es"

text \<open>The events that call \<open>start()\<close>.\<close>

fun calls_start :: "event \<Rightarrow> bool" where
  "calls_start CallStart = True"
| "calls_start CallToggle = True"
| "calls_start e = False"

text \<open>The resumptions of \<open>start()\<close> that assign \<open>serverStarted\<close>: in \<^verbatim>\<open>part_000\<close> the one
  after \<open>await this._startTask()\<close> (\<open>this.serverStarted = true\<close>), in \<^verbatim>\<open>SimpleServer.ts\<close> the one
  after \<open>await this._detectServer(rootUrl)\<close>, whose result is assigned.\<close>

fun assigning_frame :: "revision \<Rightarrow> frame \<Rightarrow> bool" where
  "assigning_frame rv (StartFrame AwaitStartTask) = (rv \<noteq> SimpleServer_ts)"
| "assigning_frame rv (StartFrame (AwaitDetectServer url)) = (rv = SimpleServer_ts)"
| "assigning_frame rv f = False"

fun assigns_serverStarted :: "revision \<Rightarrow> world \<Rightarrow> event \<Rightarrow> bool" where
  "assigns_serverStarted rv w (Resume i r) =
     (i < length (pending w) \<and> assigning_frame rv (pending w ! i))"
| "assigns_serverStarted rv w e = False"

text \<open>What \<open>_navigateCurrentPage\<close> does up to its \<open>await\<close>, seen from outside: the call of
  the resolver for the open document and the frame that waits for its answer; nothing when
  no document is open or, in \<^verbatim>\<open>SimpleServer.ts\<close>, when it lies in no workspace folder.\<close>

definition navigation_attempt :: "revision \<Rightarrow> host \<Rightarrow> (effect \<times> frame) list" where
  "navigation_attempt rv h =
     (case activeTextEditor h of
        None \<Rightarrow> []
      | Some uri \<Rightarrow>
          if rv = SimpleServer_ts \<and> getWorkspaceFolder h uri = None then []
          else [(ResolveUrl (Some uri), NavFrame (AwaitResolveUrl uri))])"

text \<open>One round of the polling loop with a failing probe.\<close>

definition failed_round :: "revision \<Rightarrow> string \<Rightarrow> effect list" where
  "failed_round rv url = [Fetch url] @ fetch_failed rv @ [Sleep 500]"

text \<open>The wiring that the constructor leaves and that only \<open>dispose\<close> takes away: one
  subscription to each of the two notifications, registered first and kept in \<open>_disposables\<close>;
  the editor subscription and the task handle are disposables of other kinds.\<close>

definition wired :: "world \<Rightarrow> bool" where
  "wired w =
     (filter (\<lambda>d. kindOf d = Some OnDidEndTask) (listeners w) = [Subscription OnDidEndTask 0]
      \<and> filter (\<lambda>d. kindOf d = Some OnDidCloseTerminal) (listeners w) = [Subscription OnDidCloseTerminal 1]
      \<and> disposables w = [Subscription OnDidEndTask 0, Subscription OnDidCloseTerminal 1]
      \<and> map_option kindOf (editorChangeListener w) \<in> {None, Some (Some OnDidChangeActiveTextEditor)}
      \<and> map_option kindOf (taskHandler w) \<in> {None, Some None})"

section \<open>Concrete inputs\<close>

definition dev_options :: SimpleServerOptions where
  "dev_options = \<lparr>taskName = ''dev'', autoStart = None, optStatusBar = None, checkTimeout = None\<rparr>"

definition badge :: StatusBarConfig where
  "badge =
     \<lparr>priority = None,
      started = \<lparr>text' = ''on'', tooltip = None, command = None, color = None, backgroundColor = None\<rparr>,
      spinning = \<lparr>text' = ''...'', tooltip = None, command = None, color = None, backgroundColor = None\<rparr>,
      stopped = \<lparr>text' = ''off'', tooltip = None, command = None, color = None, backgroundColor = None\<rparr>\<rparr>"

definition empty_host :: host where
  "empty_host =
     \<lparr>terminals = [], tabGroups = [], activeTextEditor = None, getWorkspaceFolder = (\<lambda>u. None)\<rparr>"

text \<open>A document is open and the preview tab is there.\<close>

definition editing_host :: host where
  "editing_host =
     \<lparr>terminals = [], tabGroups = [[''a.md'', ''Simple Browser'']],
      activeTextEditor = Some ''/ws/a.md'', getWorkspaceFolder = (\<lambda>u. Some ''/ws'')\<rparr>"

text \<open>An endpoint that never answers, each probe failing at once, and a clock on which
  \<open>sleep(500)\<close> lasts 500 ms.\<close>

definition never_ok :: "nat \<Rightarrow> bool" where
  "never_ok k = False"

definition steady_clock :: "nat \<Rightarrow> int" where
  "steady_clock k = 500 * int k"

text \<open>A terminal named like the task is running; and the same behind an exited terminal of
  that name.\<close>

definition live_host :: host where
  "live_host = empty_host\<lparr>terminals := [\<lparr>name = ''dev'', exitStatus = None\<rparr>]\<rparr>"

definition shadowed_host :: host where
  "shadowed_host =
     empty_host\<lparr>terminals := [\<lparr>name = ''dev'', exitStatus = Some 0\<rparr>, \<lparr>name = ''dev'', exitStatus = None\<rparr>]\<rparr>"

text \<open>\<open>start()\<close> up to the launch of the task: the provider answers, \<open>executeTask\<close>
  answers.\<close>

definition launch :: "(host \<times> event) list" where
  "launch =
     [(empty_host, CallStart),
      (empty_host, Resume 0 (Cmd ''npm run dev'' [])),
      (empty_host, Resume 0 (Exec 1))]"

text \<open>\<open>start()\<close>, then \<open>stop()\<close> while the provider is pending, then the rest of that
  \<open>start()\<close>: the task is launched, the root url resolved, the first probe succeeds, the url
  of the open document is resolved and opened.\<close>

definition interrupted_session :: "(host \<times> event) list" where
  "interrupted_session =
     [(editing_host, CallStart),
      (editing_host, CallStop),
      (editing_host, Resume 0 (Cmd ''npm run dev'' [])),
      (editing_host, Resume 0 (Exec 1)),
      (editing_host, Resume 0 Tick),
      (editing_host, Resume 0 (Url (Some ''http://x/''))),
      (editing_host, Resume 0 (Det (\<lambda>k. True) steady_clock)),
      (editing_host, Resume 0 (Url (Some ''http://x/a''))),
      (editing_host, Resume 0 Tick)]"

text \<open>A whole \<open>start()\<close> with the same answers, up to its navigation.\<close>

definition fresh_session :: "(host \<times> event) list" where
  "fresh_session =
     [(editing_host, CallStart),
      (editing_host, Resume 0 (Cmd ''npm run dev'' [])),
      (editing_host, Resume 0 (Exec 2)),
      (editing_host, Resume 0 Tick),
      (editing_host, Resume 0 (Url (Some ''http://x/''))),
      (editing_host, Resume 0 (Det (\<lambda>k. True) steady_clock)),
      (editing_host, Resume 0 (Url (Some ''http://x/a''))),
      (editing_host, Resume 0 Tick)]"

text \<open>Options with auto start and a status bar, and what follows the constructor when
  nothing interrupts and the endpoint never answers.\<close>

definition auto_options :: SimpleServerOptions where
  "auto_options = dev_options\<lparr>autoStart := Some True, optStatusBar := Some badge\<rparr>"

definition uninterrupted :: "(host \<times> event) list" where
  "uninterrupted =
     [(editing_host, Resume 0 (Cmd ''npm run dev'' [])),
      (editing_host, Resume 0 (Exec 1)),
      (editing_host, Resume 0 Tick),
      (editing_host, Resume 0 (Url (Some ''http://x/''))),
      (editing_host, Resume 0 (Det never_ok steady_clock))]"

section \<open>Facts about the single operations\<close>

text \<open>
  Unfolding sets for evaluation, and which fields each operation touches.
\<close>

lemmas effect_defs = emit_def logger_info_def statusBar_call_def dispose_handle_def subscribe_def

lemmas model_defs =
  construct_def register_def init_statusBar_def initial_def addDisposable_def subscribe_def
  start_def startTask_def isStarted_def statusBar_call_def emit_def logger_info_def
  stop_def dispose_handle_def toggle_def dispose_def deliver_def onDidEndTask_def
  onDidCloseTerminal_def resume_def settle_def navigateCurrentPage_def openUrl_def
  hasSimpleBrowserOpened_def start_finish_def new_StatusBar_def updateInfo_def
  createStatusBarItem_def StatusBar_started_def StatusBar_spinning_def StatusBar_stopped_def
  StatusBar_dispose_def

lemmas input_defs =
  dev_options_def badge_def empty_host_def editing_host_def never_ok_def steady_clock_def

lemma statusBar_stop: "statusBar (stop w) = map_option StatusBar_stopped (statusBar w)"
  by (simp add: stop_def statusBar_call_def dispose_handle_def emit_def Let_def split: option.splits)

lemma stop_clears:
  "editorChangeListener (stop w) = None" "taskHandler (stop w) = None"
  "currentUrl (stop w) = None" "serverStarted (stop w) = None"
  by (simp_all add: stop_def statusBar_call_def dispose_handle_def emit_def Let_def split: option.splits)

lemma disposables_stop: "disposables (stop w) = disposables w"
  by (simp add: stop_def statusBar_call_def dispose_handle_def emit_def Let_def split: option.splits)

lemma StatusBar_stopped_fields:
  "state (StatusBar_stopped sb) = Stopped" "sbOpt (StatusBar_stopped sb) = sbOpt sb"
  "appearance (StatusBar_stopped sb) = stopped (sbOpt sb)"
  "StatusBar_stopped (StatusBar_stopped sb) = StatusBar_stopped sb"
  by (simp_all add: StatusBar_stopped_def updateInfo_def appearance_def Let_def)

lemma StatusBar_started_fields:
  "state (StatusBar_started sb) = Started" "sbOpt (StatusBar_started sb) = sbOpt sb"
  "appearance (StatusBar_started sb) = started (sbOpt sb)"
  by (simp_all add: StatusBar_started_def updateInfo_def appearance_def Let_def)

lemma new_StatusBar_fields:
  "state (new_StatusBar c) = Stopped" "appearance (new_StatusBar c) = stopped c"
  "shown (statusBarItem (new_StatusBar c))"
  by (simp_all add: new_StatusBar_def updateInfo_def appearance_def createStatusBarItem_def Let_def)

lemma navigateCurrentPage_fields:
  "editorChangeListener (navigateCurrentPage rv h w) = editorChangeListener w"
  "taskHandler (navigateCurrentPage rv h w) = taskHandler w"
  "serverStarted (navigateCurrentPage rv h w) = serverStarted w"
  "currentUrl (navigateCurrentPage rv h w) = currentUrl w"
  "statusBar (navigateCurrentPage rv h w) = statusBar w"
  "disposables (navigateCurrentPage rv h w) = disposables w"
  "listeners (navigateCurrentPage rv h w) = listeners w"
  "nextId (navigateCurrentPage rv h w) = nextId w"
  by (simp_all add: navigateCurrentPage_def emit_def split: option.splits)

lemma start_finish_fields:
  "editorChangeListener (start_finish rv h w) = editorChangeListener w"
  "taskHandler (start_finish rv h w) = taskHandler w"
  "serverStarted (start_finish rv h w) = serverStarted w"
  "currentUrl (start_finish rv h w) = currentUrl w"
  "statusBar (start_finish rv h w) = map_option StatusBar_started (statusBar w)"
  "disposables (start_finish rv h w) = disposables w"
  "listeners (start_finish rv h w) = listeners w"
  "nextId (start_finish rv h w) = nextId w"
  by (simp_all add: start_finish_def statusBar_call_def emit_def navigateCurrentPage_fields
      split: option.splits)

lemma start_finish_navigates:
  "trace (start_finish rv h w)
     = trace w @ map fst (navigation_attempt rv h)
         @ (case statusBar w of None \<Rightarrow> [] | Some sb \<Rightarrow> [UpdateInfo Started])"
  "pending (start_finish rv h w) = pending w @ map snd (navigation_attempt rv h)"
  by (simp_all add: start_finish_def statusBar_call_def emit_def navigateCurrentPage_def
      navigation_attempt_def StatusBar_started_fields split: option.splits)

lemma start_finish_last:
  "statusBar w = Some sb \<Longrightarrow> \<exists>es. trace (start_finish rv h w) = trace w @ es @ [UpdateInfo Started]"
  by (simp add: start_finish_def statusBar_call_def emit_def navigateCurrentPage_fields
      navigateCurrentPage_def StatusBar_started_fields split: option.splits)

lemma settle_fields:
  "editorChangeListener (settle i f w) = editorChangeListener w"
  "serverStarted (settle i f w) = serverStarted w"
  "taskHandler (settle i f w) = taskHandler w"
  "listeners (settle i f w) = listeners w"
  "disposables (settle i f w) = disposables w"
  by (simp_all add: settle_def split: option.splits)

lemma init_statusBar_fields:
  "listeners (init_statusBar opt w) = listeners w" "nextId (init_statusBar opt w) = nextId w"
  "disposables (init_statusBar opt w) = disposables w"
  "editorChangeListener (init_statusBar opt w) = editorChangeListener w"
  "taskHandler (init_statusBar opt w) = taskHandler w"
  "serverStarted (init_statusBar opt w) = serverStarted w"
  "currentUrl (init_statusBar opt w) = currentUrl w"
  by (simp_all add: init_statusBar_def emit_def split: option.splits)

lemma start_noop: "isStarted w \<Longrightarrow> start rv opt h w = w"
  by (simp add: start_def)

lemma dispose_clears:
  "editorChangeListener (dispose w) = None" "serverStarted (dispose w) = None"
  "taskHandler (dispose w) = None" "currentUrl (dispose w) = None"
proof -
  have f: "editorChangeListener (fold dispose_handle ds v) = editorChangeListener v
      \<and> serverStarted (fold dispose_handle ds v) = serverStarted v
      \<and> taskHandler (fold dispose_handle ds v) = taskHandler v
      \<and> currentUrl (fold dispose_handle ds v) = currentUrl v" for ds v
    by (induction ds arbitrary: v) (simp_all add: dispose_handle_def emit_def)
  show "editorChangeListener (dispose w) = None" "serverStarted (dispose w) = None"
    "taskHandler (dispose w) = None" "currentUrl (dispose w) = None"
    by (simp_all add: dispose_def Let_def f stop_clears emit_def split: option.splits)
qed

lemma openUrl_keeps:
  assumes "openUrl rv h url w = (w', pc)"
  shows "editorChangeListener w' = editorChangeListener w \<and> serverStarted w' = serverStarted w
    \<and> taskHandler w' = taskHandler w \<and> listeners w' = listeners w \<and> disposables w' = disposables w"
  using assms by (auto simp add: openUrl_def logger_info_def emit_def Let_def split: if_splits)

lemma resume_nav_keeps:
  assumes "resume_nav rv h pc r w = Some (w', pc')"
  shows "editorChangeListener w' = editorChangeListener w" "serverStarted w' = serverStarted w"
    "taskHandler w' = taskHandler w" "listeners w' = listeners w" "disposables w' = disposables w"
proof -
  have "editorChangeListener w' = editorChangeListener w \<and> serverStarted w' = serverStarted w
    \<and> taskHandler w' = taskHandler w \<and> listeners w' = listeners w \<and> disposables w' = disposables w"
  proof (cases pc)
    case (AwaitResolveUrl uri)
    then show ?thesis using assms
      by (cases r) (auto simp add: Let_def logger_info_def emit_def
          split: option.splits if_splits dest!: openUrl_keeps)
  next
    case (AwaitOpenUrl url)
    then show ?thesis using assms
      by (cases r) (auto simp add: logger_info_def emit_def)
  qed
  then show "editorChangeListener w' = editorChangeListener w" "serverStarted w' = serverStarted w"
    "taskHandler w' = taskHandler w" "listeners w' = listeners w" "disposables w' = disposables w"
    by simp_all
qed

lemma resume_start_keeps:
  assumes "resume_start rv opt h pc r w = Some (w', pc')"
  shows "editorChangeListener w' = editorChangeListener w"
    and "listeners w' = listeners w" and "disposables w' = disposables w"
    and "serverStarted w \<noteq> None \<Longrightarrow> serverStarted w' \<noteq> None"
    and "isStarted w \<Longrightarrow> rv \<noteq> SimpleServer_ts \<Longrightarrow> pc = AwaitStartTask \<Longrightarrow> serverStarted w' = Some True"
    and "taskHandler w' = taskHandler w \<or> (\<exists>e. taskHandler w' = Some (ExecutionHandle e))"
proof -
  have "editorChangeListener w' = editorChangeListener w \<and> listeners w' = listeners w
    \<and> disposables w' = disposables w
    \<and> (serverStarted w \<noteq> None \<longrightarrow> serverStarted w' \<noteq> None)
    \<and> (rv \<noteq> SimpleServer_ts \<and> pc = AwaitStartTask \<longrightarrow> serverStarted w' = Some True)
    \<and> (taskHandler w' = taskHandler w \<or> (\<exists>e. taskHandler w' = Some (ExecutionHandle e)))"
  proof (cases pc)
    case AwaitGetStartCommand
    then show ?thesis using assms by (cases r) (auto simp add: Let_def logger_info_def emit_def)
  next
    case AwaitExecuteTask
    then show ?thesis using assms by (cases r) auto
  next
    case AwaitStartTask
    then show ?thesis using assms by (cases r) (auto simp add: Let_def emit_def)
  next
    case AwaitRootUrl
    then show ?thesis using assms
      by (cases r) (auto simp add: start_finish_fields split: option.splits if_splits)
  next
    case (AwaitDetectServer url)
    then show ?thesis using assms
      by (cases r) (auto simp add: Let_def start_finish_fields split: option.splits if_splits)
  qed
  then show "editorChangeListener w' = editorChangeListener w"
    and "listeners w' = listeners w" and "disposables w' = disposables w"
    and "serverStarted w \<noteq> None \<Longrightarrow> serverStarted w' \<noteq> None"
    and "isStarted w \<Longrightarrow> rv \<noteq> SimpleServer_ts \<Longrightarrow> pc = AwaitStartTask \<Longrightarrow> serverStarted w' = Some True"
    and "taskHandler w' = taskHandler w \<or> (\<exists>e. taskHandler w' = Some (ExecutionHandle e))"
    by simp_all
qed

lemma run_append: "run rv opt (es @ es') w = run rv opt es' (run rv opt es w)"
  by (induction es arbitrary: w) auto

section \<open>stop is idempotent\<close>

lemma statusBar_stop_funpow:
  "statusBar ((stop ^^ Suc n) w) = map_option StatusBar_stopped (statusBar w)"
proof (induction n)
  case 0
  show ?case by (simp add: statusBar_stop)
next
  case (Suc n)
  have "statusBar ((stop ^^ Suc (Suc n)) w) = map_option StatusBar_stopped (statusBar ((stop ^^ Suc n) w))"
    by (simp add: statusBar_stop)
  also have "\<dots> = map_option StatusBar_stopped (map_option StatusBar_stopped (statusBar w))"
    by (simp only: Suc.IH)
  also have "\<dots> = map_option StatusBar_stopped (statusBar w)"
    by (cases "statusBar w") (simp_all add: StatusBar_stopped_fields)
  finally show ?case .
qed

lemma trace_stop_stopped:
  "trace (stop (stop w)) = trace (stop w) @ (case statusBar w of None \<Rightarrow> [] | Some sb \<Rightarrow> [UpdateInfo Stopped])"
  by (simp add: stop_def statusBar_call_def dispose_handle_def emit_def Let_def StatusBar_stopped_fields split: option.splits)

text \<open>
  C2. \<open>stop()\<close> is idempotent. From every state, after one or more consecutive calls of
  \<open>stop\<close> the editor subscription and the task handle are \<open>undefined\<close>, so are \<open>currentUrl\<close>
  and \<open>serverStarted\<close> (the session is Stopped), and a status bar, if the controller has one,
  is in state \<open>stopped\<close> and shows the configuration of that state. A second \<open>stop\<close> changes no
  field of the controller and disposes nothing: it only renders the badge again. \<open>stop\<close> has no
  failing branch: the source has no \<open>throw\<close> and the function is total.
\<close>

theorem stop_idempotent:
  "editorChangeListener ((stop ^^ Suc n) w) = None
   \<and> taskHandler ((stop ^^ Suc n) w) = None
   \<and> currentUrl ((stop ^^ Suc n) w) = None
   \<and> serverStarted ((stop ^^ Suc n) w) = None
   \<and> sessionState ((stop ^^ Suc n) w) = Session_Stopped
   \<and> map_option state (statusBar ((stop ^^ Suc n) w)) = map_option (\<lambda>sb. Stopped) (statusBar w)
   \<and> map_option appearance (statusBar ((stop ^^ Suc n) w))
       = map_option (\<lambda>sb. stopped (sbOpt sb)) (statusBar w)
   \<and> controller (stop (stop w)) = controller (stop w)
   \<and> effects_since (stop w) (stop (stop w))
       = (case statusBar w of None \<Rightarrow> [] | Some sb \<Rightarrow> [UpdateInfo Stopped])"
proof -
  have sb: "statusBar ((stop ^^ Suc n) w) = map_option StatusBar_stopped (statusBar w)"
    by (rule statusBar_stop_funpow)
  have a: "map_option state (statusBar ((stop ^^ Suc n) w)) = map_option (\<lambda>sb. Stopped) (statusBar w)"
    unfolding sb by (cases "statusBar w") (simp_all add: StatusBar_stopped_fields)
  have b: "map_option appearance (statusBar ((stop ^^ Suc n) w))
       = map_option (\<lambda>sb. stopped (sbOpt sb)) (statusBar w)"
    unfolding sb by (cases "statusBar w") (simp_all add: StatusBar_stopped_fields)
  have c: "controller (stop (stop w)) = controller (stop w)"
    by (cases "statusBar w")
       (simp_all add: controller_def stop_clears disposables_stop statusBar_stop StatusBar_stopped_fields)
  have d: "effects_since (stop w) (stop (stop w))
       = (case statusBar w of None \<Rightarrow> [] | Some sb \<Rightarrow> [UpdateInfo Stopped])"
    by (simp add: effects_since_def trace_stop_stopped)
  show ?thesis
    using a b c d by (simp add: stop_clears sessionState_def)
qed

section \<open>Navigation: _openUrl\<close>

lemma find_None_iff_set: "(find P xs \<noteq> None) = (\<exists>x \<in> set xs. P x)"
  by (auto simp add: find_None_iff)

lemma hasSimpleBrowserOpened_iff:
  "hasSimpleBrowserOpened h = (\<exists>group \<in> set (tabGroups h). ''Simple Browser'' \<in> set group)"
  unfolding hasSimpleBrowserOpened_def find_None_iff_set by auto

lemma openUrl_skip:
  assumes "currentUrl w = Some url" "hasSimpleBrowserOpened h"
  shows "filter isOpenPreview (effects_since w (fst (openUrl rv h url w))) = []"
    and "controller (fst (openUrl rv h url w)) = controller w"
    and "snd (openUrl rv h url w) = None"
  using assms by (simp_all add: openUrl_def effects_since_def controller_def effect_defs Let_def)

lemma openUrl_open:
  assumes "\<not> (currentUrl w = Some url \<and> hasSimpleBrowserOpened h)"
  shows "filter isOpenPreview (effects_since w (fst (openUrl rv h url w))) = [OpenPreview url Beside True]"
    and "currentUrl (fst (openUrl rv h url w)) = (if serverStarted w = Some True then Some url else currentUrl w)"
    and "snd (openUrl rv h url w) = Some (AwaitOpenUrl url)"
  using assms by (auto simp add: openUrl_def effects_since_def effect_defs Let_def)

text \<open>
  C3. \<open>_openUrl(url)\<close>: the preview counts as open when some tab of some tab group is
  labelled \<open>Simple Browser\<close>. If \<open>url\<close> equals \<open>currentUrl\<close> and the preview is open, the
  open-preview command is not invoked and no field changes. Otherwise the command is invoked
  once, with \<open>ViewColumn.Beside\<close> and \<open>preserveFocus: true\<close>, and \<open>url\<close> becomes \<open>currentUrl\<close>
  exactly when \<open>serverStarted\<close> is \<open>true\<close>; else \<open>currentUrl\<close> keeps its value.
\<close>

theorem openUrl_dedup:
  "(hasSimpleBrowserOpened h = (\<exists>group \<in> set (tabGroups h). ''Simple Browser'' \<in> set group))
   \<and> (currentUrl w = Some url \<and> hasSimpleBrowserOpened h \<longrightarrow>
        filter isOpenPreview (effects_since w (fst (openUrl rv h url w))) = []
        \<and> controller (fst (openUrl rv h url w)) = controller w
        \<and> snd (openUrl rv h url w) = None)
   \<and> (\<not> (currentUrl w = Some url \<and> hasSimpleBrowserOpened h) \<longrightarrow>
        filter isOpenPreview (effects_since w (fst (openUrl rv h url w)))
          = [OpenPreview url Beside True]
        \<and> currentUrl (fst (openUrl rv h url w))
          = (if serverStarted w = Some True then Some url else currentUrl w)
        \<and> snd (openUrl rv h url w) = Some (AwaitOpenUrl url))"
  using hasSimpleBrowserOpened_iff [of h] openUrl_skip [of w url h rv] openUrl_open [of w url h rv]
  by blast

text \<open>
  The three cases at concrete inputs: same url with the tab open, another url while
  started, another url while spinning.
\<close>

theorem openUrl_dedup_witness:
  "currentUrl (initial\<lparr>currentUrl := Some ''http://x/a'', serverStarted := Some True\<rparr>) = Some ''http://x/a''
   \<and> hasSimpleBrowserOpened editing_host
   \<and> filter isOpenPreview
        (effects_since (initial\<lparr>currentUrl := Some ''http://x/a'', serverStarted := Some True\<rparr>)
          (fst (openUrl Part000_logger editing_host ''http://x/a''
             (initial\<lparr>currentUrl := Some ''http://x/a'', serverStarted := Some True\<rparr>)))) = []
   \<and> filter isOpenPreview
        (effects_since (initial\<lparr>currentUrl := Some ''http://x/a'', serverStarted := Some True\<rparr>)
          (fst (openUrl Part000_logger editing_host ''http://x/b''
             (initial\<lparr>currentUrl := Some ''http://x/a'', serverStarted := Some True\<rparr>))))
       = [OpenPreview ''http://x/b'' Beside True]
   \<and> currentUrl (fst (openUrl Part000_logger editing_host ''http://x/b''
             (initial\<lparr>currentUrl := Some ''http://x/a'', serverStarted := Some True\<rparr>)))
       = Some ''http://x/b''
   \<and> currentUrl (fst (openUrl Part000_logger editing_host ''http://x/b''
             (initial\<lparr>currentUrl := Some ''http://x/a'', serverStarted := Some False\<rparr>)))
       = Some ''http://x/a''"
proof -
  let ?w = "initial\<lparr>currentUrl := Some ''http://x/a'', serverStarted := Some True\<rparr>"
  let ?v = "initial\<lparr>currentUrl := Some ''http://x/a'', serverStarted := Some False\<rparr>"
  have cur: "currentUrl ?w = Some ''http://x/a''" "currentUrl ?v = Some ''http://x/a''"
    by (simp_all add: initial_def)
  have ss: "serverStarted ?w = Some True" "serverStarted ?v = Some False"
    by (simp_all add: initial_def)
  have tab: "hasSimpleBrowserOpened editing_host"
    by (simp add: hasSimpleBrowserOpened_def editing_host_def)
  have ne: "''http://x/a'' \<noteq> ''http://x/b''" by simp
  show ?thesis
    using openUrl_dedup [of editing_host ?w "''http://x/a''" Part000_logger]
      openUrl_dedup [of editing_host ?w "''http://x/b''" Part000_logger]
      openUrl_dedup [of editing_host ?v "''http://x/b''" Part000_logger]
      cur ss tab ne
    by simp
qed

section \<open>The readiness poll: _detectServer\<close>

lemma detect_loop_timeout:
  assumes fail: "\<And>j. \<not> fetch_ok j"
    and clock: "\<And>j. date_now (Suc j) = date_now j + 500"
  shows "n = nat ((maxTime - date_now k + 499) div 500) \<Longrightarrow>
    detect_loop rv url fetch_ok date_now maxTime k (date_now k) acc
      = Some (rv \<noteq> SimpleServer_ts, acc @ concat (replicate n (failed_round rv url)),
              date_now k + 500 * int n)"
proof (induction n arbitrary: k acc)
  case 0
  then have "\<not> date_now k < maxTime" by linarith
  then show ?case by (subst detect_loop.simps) simp
next
  case (Suc n)
  then have lt: "date_now k < maxTime" by linarith
  have n: "n = nat ((maxTime - date_now (Suc k) + 499) div 500)"
    using Suc.prems clock [of k] by simp
  have step: "detect_loop rv url fetch_ok date_now maxTime k (date_now k) acc
      = detect_loop rv url fetch_ok date_now maxTime (Suc k) (date_now (Suc k))
          (acc @ failed_round rv url)"
    using lt fail by (subst detect_loop.simps) (simp add: failed_round_def)
  show ?case
    unfolding step Suc.IH [OF n] using clock [of k] by (simp add: algebra_simps)
qed

lemma detect_loop_success:
  assumes ok: "fetch_ok k"
    and intime: "\<And>j. j \<le> k \<Longrightarrow> date_now j < maxTime"
  shows "(\<And>j. i \<le> j \<Longrightarrow> j < k \<Longrightarrow> \<not> fetch_ok j) \<Longrightarrow> i \<le> k \<Longrightarrow> d = k - i \<Longrightarrow>
    detect_loop rv url fetch_ok date_now maxTime i (date_now i) acc
      = Some (True, acc @ concat (replicate d (failed_round rv url)) @ [Fetch url], date_now k)"
proof (induction d arbitrary: i acc)
  case 0
  then have "i = k" by simp
  then show ?case using ok intime [of k] by (subst detect_loop.simps) simp
next
  case (Suc d)
  then have ik: "i < k" by simp
  have nok: "\<not> fetch_ok i" using Suc.prems(1) [of i] ik by simp
  have step: "detect_loop rv url fetch_ok date_now maxTime i (date_now i) acc
      = detect_loop rv url fetch_ok date_now maxTime (Suc i) (date_now (Suc i))
          (acc @ failed_round rv url)"
    using nok intime [of i] ik by (subst detect_loop.simps) (simp add: failed_round_def)
  have "detect_loop rv url fetch_ok date_now maxTime (Suc i) (date_now (Suc i))
          (acc @ failed_round rv url)
      = Some (True, (acc @ failed_round rv url) @ concat (replicate d (failed_round rv url)) @ [Fetch url],
              date_now k)"
    using Suc.prems ik by (intro Suc.IH) simp_all
  then show ?case unfolding step by simp
qed

lemma count_fetch_rounds:
  "length (filter isFetch (concat (replicate n (failed_round rv url)))) = n"
  by (induction n) (simp_all add: failed_round_def fetch_failed_def split: revision.splits)

lemma poll_bounds:
  fixes T :: int
  assumes "0 \<le> T"
  shows "T \<le> 500 * int (nat ((T + 499) div 500))" "500 * int (nat ((T + 499) div 500)) < T + 500"
proof -
  have nn: "0 \<le> (T + 499) div 500" using assms by simp
  have "int (nat ((T + 499) div 500)) = (T + 499) div 500" using nn by simp
  moreover have "500 * ((T + 499) div 500) + (T + 499) mod 500 = T + 499" by simp
  moreover have "0 \<le> (T + 499) mod 500" "(T + 499) mod 500 < 500" by simp_all
  ultimately show "T \<le> 500 * int (nat ((T + 499) div 500))"
    "500 * int (nat ((T + 499) div 500)) < T + 500" by linarith+
qed

lemma never_ok_steady:
  "\<And>j. \<not> never_ok j" "\<And>j. steady_clock (Suc j) = steady_clock j + 500" "steady_clock 0 = 0"
  by (simp_all add: never_ok_def steady_clock_def)

lemma detect_never_part000:
  assumes "rv \<noteq> SimpleServer_ts" "checkTimeout opt = None"
  shows "detectServer rv opt url never_ok steady_clock
    = Some (True, concat (replicate 20 (failed_round rv url)), 10000)"
  using detect_loop_timeout [of never_ok steady_clock 20 10000 0 rv url "[]"] assms
  by (simp add: never_ok_steady detectServer_def timeoutMs_def Let_def)

lemma detect_never_ts:
  "detectServer SimpleServer_ts opt url never_ok steady_clock
    = Some (False, concat (replicate 30 (failed_round SimpleServer_ts url)), 15000)"
  using detect_loop_timeout [of never_ok steady_clock 30 15000 0 SimpleServer_ts url "[]"]
  by (simp add: never_ok_steady detectServer_def timeoutMs_def Let_def)

lemma detect_first_ok:
  "0 < timeoutMs rv opt \<Longrightarrow>
     detectServer rv opt url (\<lambda>k. True) steady_clock = Some (True, [Fetch url], 0)"
  by (subst detectServer_def, subst detect_loop.simps) (simp add: steady_clock_def Let_def)

text \<open>
  The effects of a poll are probes, pauses and log lines only.
\<close>

lemma detect_loop_effects:
  assumes "detect_loop rv url fetch_ok date_now maxTime k now acc = Some y"
  shows "set (fst (snd y)) \<subseteq> set acc \<union> {Fetch url, Sleep 500} \<union> set (fetch_failed rv)"
proof (rule detect_loop.raw_induct
    [where P = "\<lambda>rv url fetch_ok date_now maxTime k now acc y.
       set (fst (snd y)) \<subseteq> set acc \<union> {Fetch url, Sleep 500} \<union> set (fetch_failed rv)",
     OF _ assms], goal_cases)
  case (1 detect_loop rv url fetch_ok date_now maxTime k now acc y)
  show ?case
  proof (cases "now < maxTime")
    case False
    with 1(2) show ?thesis by auto
  next
    case True
    show ?thesis
    proof (cases "fetch_ok k")
      case True
      with \<open>now < maxTime\<close> 1(2) show ?thesis by auto
    next
      case False
      with \<open>now < maxTime\<close> 1(2)
      have "detect_loop rv url fetch_ok date_now maxTime (Suc k) (date_now (Suc k))
              (acc @ [Fetch url] @ fetch_failed rv @ [Sleep 500]) = Some y" by simp
      from 1(1) [OF this] show ?thesis by (simp add: subset_iff) blast
    qed
  qed
qed

lemma detectServer_effects:
  assumes "detectServer rv opt url fetch_ok date_now = Some (ready, effs, t)"
  shows "set effs \<subseteq> {Fetch url, Sleep 500} \<union> set (fetch_failed rv)"
  using detect_loop_effects [of rv url fetch_ok date_now _ 0 _ "[]" "(ready, effs, t)"] assms
  by (simp add: detectServer_def Let_def)

lemma fetch_failed_cases:
  "e \<in> set (fetch_failed rv) \<Longrightarrow>
     e = LoggerInfo ''VitePress server is not ready yet...'' \<or> e = ConsoleWarn ''fetch url failed''"
  by (cases rv) (simp_all add: fetch_failed_def)

lemma detectServer_count:
  assumes "detectServer rv opt url fetch_ok date_now = Some (ready, effs, t)"
    and "x = GetStartCommand \<or> x = UpdateInfo s"
  shows "count_list effs x = 0"
proof -
  have "x \<notin> set effs"
    using detectServer_effects [OF assms(1)] assms(2) fetch_failed_cases [of x rv] by auto
  then show ?thesis by (simp add: count_list_0_iff)
qed

lemma rendered_append: "rendered (xs @ ys) = rendered xs @ rendered ys"
  by (induction xs rule: rendered.induct) simp_all

lemma rendered_Nil:
  "(\<And>s. UpdateInfo s \<notin> set es) \<Longrightarrow> rendered es = []"
  by (induction es rule: rendered.induct) auto

lemma detectServer_rendered:
  assumes "detectServer rv opt url fetch_ok date_now = Some (ready, effs, t)"
  shows "rendered effs = []"
proof (rule rendered_Nil)
  fix s show "UpdateInfo s \<notin> set effs"
    using detectServer_effects [OF assms(1)] fetch_failed_cases [of "UpdateInfo s" rv] by auto
qed

lemma rendered_rounds: "rendered (concat (replicate n (failed_round rv url))) = []"
  by (induction n)
     (simp_all add: failed_round_def fetch_failed_def rendered_append split: revision.splits)

text \<open>
  C5 (as amended). The poll probes the url, pauses 500 ms after each failed probe and
  returns \<open>true\<close> at once on the first probe that succeeds (first conjunct: the probes before
  the \<open>k\<close>-th fail, the \<open>k\<close>-th succeeds, and the clock has not reached the deadline by then).
  For an endpoint that never answers, when each probe fails at once and each pause lasts
  500 ms on the clock (\<open>date_now (Suc j) = date_now j + 500\<close>), the poll ends after
  \<open>\<lceil>timeout / 500\<rceil>\<close> probes, at a time that is not before the deadline and less than 500 ms
  after it (second conjunct). The timeout is \<open>checkTimeout\<close>, 10 000 ms by default, in the two
  revisions of \<^verbatim>\<open>part_000\<close>: 20 probes by default. In \<^verbatim>\<open>src/src/SimpleServer.ts\<close> it is the
  constant 15 000 ms, whatever the options say: 30 probes, and the poll returns \<open>false\<close>.
\<close>

theorem detectServer_polling:
  "((\<forall>j<k. \<not> fetch_ok j) \<and> fetch_ok k \<and> (\<forall>j\<le>k. date_now j < date_now 0 + timeoutMs rv opt) \<longrightarrow>
      detectServer rv opt url fetch_ok date_now
        = Some (True, concat (replicate k (failed_round rv url)) @ [Fetch url], date_now k))
   \<and> ((\<forall>j. \<not> fetch_ok j) \<and> (\<forall>j. date_now (Suc j) = date_now j + 500) \<longrightarrow>
      detectServer rv opt url fetch_ok date_now
        = Some (rv \<noteq> SimpleServer_ts,
                concat (replicate (nat ((timeoutMs rv opt + 499) div 500)) (failed_round rv url)),
                date_now 0 + 500 * int (nat ((timeoutMs rv opt + 499) div 500)))
      \<and> length (filter isFetch
            (concat (replicate (nat ((timeoutMs rv opt + 499) div 500)) (failed_round rv url))))
          = nat ((timeoutMs rv opt + 499) div 500)
      \<and> (0 \<le> timeoutMs rv opt \<longrightarrow>
            timeoutMs rv opt \<le> 500 * int (nat ((timeoutMs rv opt + 499) div 500))
            \<and> 500 * int (nat ((timeoutMs rv opt + 499) div 500)) < timeoutMs rv opt + 500))
   \<and> timeoutMs rv opt
       = (if rv = SimpleServer_ts then 15000
          else case checkTimeout opt of None \<Rightarrow> 10000 | Some t \<Rightarrow> t)
   \<and> nat (((10000::int) + 499) div 500) = 20 \<and> nat (((15000::int) + 499) div 500) = 30"
proof -
  have a: "detectServer rv opt url fetch_ok date_now
        = Some (True, concat (replicate k (failed_round rv url)) @ [Fetch url], date_now k)"
    if "\<forall>j<k. \<not> fetch_ok j" "fetch_ok k" "\<forall>j\<le>k. date_now j < date_now 0 + timeoutMs rv opt"
    using detect_loop_success [of fetch_ok k date_now "date_now 0 + timeoutMs rv opt" 0 k rv url "[]"] that
    by (simp add: detectServer_def Let_def)
  have b: "detectServer rv opt url fetch_ok date_now
        = Some (rv \<noteq> SimpleServer_ts,
                concat (replicate (nat ((timeoutMs rv opt + 499) div 500)) (failed_round rv url)),
                date_now 0 + 500 * int (nat ((timeoutMs rv opt + 499) div 500)))"
    if "\<forall>j. \<not> fetch_ok j" "\<forall>j. date_now (Suc j) = date_now j + 500"
    using detect_loop_timeout [of fetch_ok date_now "nat ((timeoutMs rv opt + 499) div 500)"
        "date_now 0 + timeoutMs rv opt" 0 rv url "[]"] that
    by (simp add: detectServer_def Let_def)
  have c: "timeoutMs rv opt
       = (if rv = SimpleServer_ts then 15000
          else case checkTimeout opt of None \<Rightarrow> 10000 | Some t \<Rightarrow> t)"
    by (simp add: timeoutMs_def)
  show ?thesis
    using a b c count_fetch_rounds [of "nat ((timeoutMs rv opt + 499) div 500)" rv url]
      poll_bounds [of "timeoutMs rv opt"]
    by simp
qed

text \<open>
  The claim as stated, with the timeout 10 000 ms for every revision, fails for
  \<^verbatim>\<open>src/src/SimpleServer.ts\<close>: with \<open>checkTimeout = 10000\<close> in the options, against an endpoint
  that never answers, the poll makes 30 probes and ends at 15 000 ms.
\<close>

theorem detectServer_polling_counterexample:
  "checkTimeout (dev_options\<lparr>checkTimeout := Some 10000\<rparr>) = Some 10000
   \<and> steady_clock 0 = 0
   \<and> detectServer SimpleServer_ts (dev_options\<lparr>checkTimeout := Some 10000\<rparr>) ''http://x/''
        never_ok steady_clock
      = Some (False, concat (replicate 30 (failed_round SimpleServer_ts ''http://x/'')), 15000)"
  by (simp add: detect_never_ts never_ok_steady)

text \<open>
  The default timeout of \<^verbatim>\<open>part_000\<close> against an endpoint that never answers, and an
  endpoint that answers the third probe.
\<close>

theorem detectServer_polling_witness:
  "detectServer Part000_logger dev_options ''http://x/'' never_ok steady_clock
     = Some (True, concat (replicate 20 (failed_round Part000_logger ''http://x/'')), 10000)
   \<and> length (filter isFetch (concat (replicate 20 (failed_round Part000_logger ''http://x/'')))) = 20
   \<and> detectServer Part000_plain dev_options ''http://x/'' (\<lambda>j. 2 \<le> j) steady_clock
     = Some (True, concat (replicate 2 (failed_round Part000_plain ''http://x/'')) @ [Fetch ''http://x/''],
             1000)"
proof -
  have t: "timeoutMs Part000_logger dev_options = 10000" "timeoutMs Part000_plain dev_options = 10000"
    by (simp_all add: timeoutMs_def dev_options_def)
  have a: "(\<forall>j. \<not> never_ok j) \<and> (\<forall>j. steady_clock (Suc j) = steady_clock j + 500)"
    by (simp add: never_ok_steady)
  have b: "(\<forall>j<(2::nat). \<not> 2 \<le> j) \<and> (2::nat) \<le> 2
      \<and> (\<forall>j\<le>2. steady_clock j < steady_clock 0 + timeoutMs Part000_plain dev_options)"
    by (simp add: t steady_clock_def)
  have c: "steady_clock 2 = 1000" "steady_clock 0 = 0" by (simp_all add: steady_clock_def)
  from detectServer_polling [of 0 never_ok steady_clock Part000_logger dev_options "''http://x/''"] a
  have 1: "detectServer Part000_logger dev_options ''http://x/'' never_ok steady_clock
     = Some (True, concat (replicate 20 (failed_round Part000_logger ''http://x/'')), 10000)"
    and 2: "length (filter isFetch (concat (replicate 20 (failed_round Part000_logger ''http://x/'')))) = 20"
    by (simp_all add: t c)
  from detectServer_polling [of 2 "\<lambda>j. 2 \<le> j" steady_clock Part000_plain dev_options "''http://x/''"] b
  have 3: "detectServer Part000_plain dev_options ''http://x/'' (\<lambda>j. 2 \<le> j) steady_clock
     = Some (True, concat (replicate 2 (failed_round Part000_plain ''http://x/'')) @ [Fetch ''http://x/''],
             1000)"
    by (simp add: c)
  show ?thesis using 1 2 3 by simp
qed

section \<open>Histories evaluated\<close>

text \<open>
  The auto-started session of \<^verbatim>\<open>src/src/SimpleServer.ts\<close>, run without interruption against
  an endpoint that never answers.
\<close>

lemma uninterrupted_ts:
  "run SimpleServer_ts auto_options uninterrupted (construct SimpleServer_ts auto_options editing_host)
   = \<lparr>disposables = [Subscription OnDidEndTask 0, Subscription OnDidCloseTerminal 1],
      editorChangeListener = Some (Subscription OnDidChangeActiveTextEditor 2),
      taskHandler = Some (ExecutionHandle 1),
      currentUrl = None,
      serverStarted = Some False,
      statusBar = Some (StatusBar_started (new_StatusBar badge)),
      pending = [NavFrame (AwaitResolveUrl ''/ws/a.md'')],
      trace =
        [Subscribe (Subscription OnDidEndTask 0), Subscribe (Subscription OnDidCloseTerminal 1),
         Subscribe (Subscription OnDidChangeActiveTextEditor 2), GetStartCommand,
         CreateStatusBarItem None, UpdateInfo Stopped, ShowItem,
         ExecuteTask ''dev'' ''npm run dev'' None, ResolveUrl None]
        @ concat (replicate 30 (failed_round SimpleServer_ts ''http://x/''))
        @ [ResolveUrl (Some ''/ws/a.md''), UpdateInfo Started],
      listeners = [Subscription OnDidEndTask 0, Subscription OnDidCloseTerminal 1,
                   Subscription OnDidChangeActiveTextEditor 2],
      nextId = 3\<rparr>"
  by (simp add: uninterrupted_def auto_options_def detect_never_ts model_defs input_defs Let_def)

text \<open>
  The same session in \<^verbatim>\<open>part_000\<close> (without logger), up to the poll.
\<close>

lemma before_poll_plain:
  "run Part000_plain auto_options (butlast uninterrupted)
     (construct Part000_plain auto_options editing_host)
   = \<lparr>disposables = [Subscription OnDidEndTask 0, Subscription OnDidCloseTerminal 1],
      editorChangeListener = Some (Subscription OnDidChangeActiveTextEditor 2),
      taskHandler = Some (ExecutionHandle 1),
      currentUrl = None,
      serverStarted = Some True,
      statusBar = Some (StatusBar_spinning (new_StatusBar badge)),
      pending = [StartFrame (AwaitDetectServer ''http://x/'')],
      trace =
        [CreateStatusBarItem None, UpdateInfo Stopped, ShowItem,
         Subscribe (Subscription OnDidEndTask 0), Subscribe (Subscription OnDidCloseTerminal 1),
         UpdateInfo Spinning,
         Subscribe (Subscription OnDidChangeActiveTextEditor 2), GetStartCommand,
         ExecuteTask ''dev'' ''npm run dev'' (Some []), ResolveUrl None],
      listeners = [Subscription OnDidEndTask 0, Subscription OnDidCloseTerminal 1,
                   Subscription OnDidChangeActiveTextEditor 2],
      nextId = 3\<rparr>"
  by (simp add: uninterrupted_def auto_options_def model_defs input_defs Let_def)

text \<open>
  A session whose \<open>start()\<close> is overtaken by a \<open>stop()\<close> while the command provider is
  still pending: the rest of \<open>start()\<close> runs after the \<open>stop()\<close>. The world it leaves behind,
  in each revision.
\<close>

lemma interrupted_plain:
  "run Part000_plain dev_options interrupted_session (construct Part000_plain dev_options editing_host)
   =
     \<lparr>disposables =
         [Subscription OnDidEndTask 0, Subscription OnDidCloseTerminal 1],
         editorChangeListener = None, taskHandler = Some (ExecutionHandle 1),
         currentUrl = Some ''http://x/a'', serverStarted = Some True,
         statusBar = None, pending = [],
         trace =
           [Subscribe (Subscription OnDidEndTask 0),
            Subscribe (Subscription OnDidCloseTerminal 1),
            Subscribe (Subscription OnDidChangeActiveTextEditor 2),
            GetStartCommand,
            Dispose (Subscription OnDidChangeActiveTextEditor 2),
            ExecuteTask ''dev'' ''npm run dev'' (Some []), ResolveUrl None,
            Fetch ''http://x/'', ResolveUrl (Some ''/ws/a.md''),
            OpenPreview ''http://x/a'' Beside True],
         listeners =
           [Subscription OnDidEndTask 0, Subscription OnDidCloseTerminal 1],
         nextId = 3\<rparr>"
  by (simp add: interrupted_session_def detect_first_ok timeoutMs_def model_defs input_defs Let_def)

lemma interrupted_ts:
  "run SimpleServer_ts dev_options interrupted_session (construct SimpleServer_ts dev_options editing_host)
   =
     \<lparr>disposables =
         [Subscription OnDidEndTask 0, Subscription OnDidCloseTerminal 1],
         editorChangeListener = None, taskHandler = Some (ExecutionHandle 1),
         currentUrl = Some ''http://x/a'', serverStarted = Some True,
         statusBar = None, pending = [],
         trace =
           [Subscribe (Subscription OnDidEndTask 0),
            Subscribe (Subscription OnDidCloseTerminal 1),
            Subscribe (Subscription OnDidChangeActiveTextEditor 2),
            GetStartCommand,
            Dispose (Subscription OnDidChangeActiveTextEditor 2),
            ExecuteTask ''dev'' ''npm run dev'' None, ResolveUrl None,
            Fetch ''http://x/'', ResolveUrl (Some ''/ws/a.md''),
            OpenPreview ''http://x/a'' Beside True],
         listeners =
           [Subscription OnDidEndTask 0, Subscription OnDidCloseTerminal 1],
         nextId = 3\<rparr>"
  by (simp add: interrupted_session_def detect_first_ok timeoutMs_def model_defs input_defs Let_def)

lemma interrupted_logger:
  "run Part000_logger dev_options interrupted_session (construct Part000_logger dev_options editing_host)
   =
     \<lparr>disposables =
         [Subscription OnDidEndTask 0, Subscription OnDidCloseTerminal 1],
         editorChangeListener = None, taskHandler = Some (ExecutionHandle 1),
         currentUrl = Some ''http://x/a'', serverStarted = Some True,
         statusBar = None, pending = [],
         trace =
           [Subscribe (Subscription OnDidEndTask 0),
            Subscribe (Subscription OnDidCloseTerminal 1),
            Subscribe (Subscription OnDidChangeActiveTextEditor 2),
            LoggerInfo ''Starting server...'', GetStartCommand,
            Dispose (Subscription OnDidChangeActiveTextEditor 2),
            LoggerInfo ''Starting server with command:'',
            ExecuteTask ''dev'' ''npm run dev'' (Some []), ResolveUrl None,
            Fetch ''http://x/'', ResolveUrl (Some ''/ws/a.md''),
            LoggerInfo ''Resolved url:'',
            LoggerInfo ''Simple Browser opened status:'',
            OpenPreview ''http://x/a'' Beside True,
            LoggerInfo ''Simple Browser opened with url:''],
         listeners =
           [Subscription OnDidEndTask 0, Subscription OnDidCloseTerminal 1],
         nextId = 3\<rparr>"
  by (simp add: interrupted_session_def detect_first_ok timeoutMs_def model_defs input_defs Let_def)

text \<open>
  The next session, started afresh and run to its first navigation.
\<close>

lemma restarted_plain:
  "run Part000_plain dev_options (interrupted_session @ fresh_session) (construct Part000_plain dev_options editing_host)
   =
     \<lparr>disposables =
         [Subscription OnDidEndTask 0, Subscription OnDidCloseTerminal 1],
         editorChangeListener =
           Some (Subscription OnDidChangeActiveTextEditor 3),
         taskHandler = Some (ExecutionHandle 2),
         currentUrl = Some ''http://x/a'', serverStarted = Some True,
         statusBar = None, pending = [],
         trace =
           [Subscribe (Subscription OnDidEndTask 0),
            Subscribe (Subscription OnDidCloseTerminal 1),
            Subscribe (Subscription OnDidChangeActiveTextEditor 2),
            GetStartCommand,
            Dispose (Subscription OnDidChangeActiveTextEditor 2),
            ExecuteTask ''dev'' ''npm run dev'' (Some []), ResolveUrl None,
            Fetch ''http://x/'', ResolveUrl (Some ''/ws/a.md''),
            OpenPreview ''http://x/a'' Beside True,
            Subscribe (Subscription OnDidChangeActiveTextEditor 3),
            GetStartCommand, ExecuteTask ''dev'' ''npm run dev'' (Some []),
            ResolveUrl None, Fetch ''http://x/'',
            ResolveUrl (Some ''/ws/a.md'')],
         listeners =
           [Subscription OnDidEndTask 0, Subscription OnDidCloseTerminal 1,
            Subscription OnDidChangeActiveTextEditor 3],
         nextId = 4\<rparr>"
  unfolding run_append interrupted_plain
  by (simp add: fresh_session_def detect_first_ok timeoutMs_def model_defs input_defs Let_def)

lemma restarted_ts:
  "run SimpleServer_ts dev_options (interrupted_session @ fresh_session) (construct SimpleServer_ts dev_options editing_host)
   =
     \<lparr>disposables =
         [Subscription OnDidEndTask 0, Subscription OnDidCloseTerminal 1],
         editorChangeListener =
           Some (Subscription OnDidChangeActiveTextEditor 3),
         taskHandler = Some (ExecutionHandle 2),
         currentUrl = Some ''http://x/a'', serverStarted = Some True,
         statusBar = None, pending = [],
         trace =
           [Subscribe (Subscription OnDidEndTask 0),
            Subscribe (Subscription OnDidCloseTerminal 1),
            Subscribe (Subscription OnDidChangeActiveTextEditor 2),
            GetStartCommand,
            Dispose (Subscription OnDidChangeActiveTextEditor 2),
            ExecuteTask ''dev'' ''npm run dev'' None, ResolveUrl None,
            Fetch ''http://x/'', ResolveUrl (Some ''/ws/a.md''),
            OpenPreview ''http://x/a'' Beside True,
            Subscribe (Subscription OnDidChangeActiveTextEditor 3),
            GetStartCommand, ExecuteTask ''dev'' ''npm run dev'' None,
            ResolveUrl None, Fetch ''http://x/'',
            ResolveUrl (Some ''/ws/a.md'')],
         listeners =
           [Subscription OnDidEndTask 0, Subscription OnDidCloseTerminal 1,
            Subscription OnDidChangeActiveTextEditor 3],
         nextId = 4\<rparr>"
  unfolding run_append interrupted_ts
  by (simp add: fresh_session_def detect_first_ok timeoutMs_def model_defs input_defs Let_def)

lemma restarted_logger:
  "run Part000_logger dev_options (interrupted_session @ fresh_session) (construct Part000_logger dev_options editing_host)
   =
     \<lparr>disposables =
         [Subscription OnDidEndTask 0, Subscription OnDidCloseTerminal 1],
         editorChangeListener =
           Some (Subscription OnDidChangeActiveTextEditor 3),
         taskHandler = Some (ExecutionHandle 2),
         currentUrl = Some ''http://x/a'', serverStarted = Some True,
         statusBar = None, pending = [],
         trace =
           [Subscribe (Subscription OnDidEndTask 0),
            Subscribe (Subscription OnDidCloseTerminal 1),
            Subscribe (Subscription OnDidChangeActiveTextEditor 2),
            LoggerInfo ''Starting server...'', GetStartCommand,
            Dispose (Subscription OnDidChangeActiveTextEditor 2),
            LoggerInfo ''Starting server with command:'',
            ExecuteTask ''dev'' ''npm run dev'' (Some []), ResolveUrl None,
            Fetch ''http://x/'', ResolveUrl (Some ''/ws/a.md''),
            LoggerInfo ''Resolved url:'',
            LoggerInfo ''Simple Browser opened status:'',
            OpenPreview ''http://x/a'' Beside True,
            LoggerInfo ''Simple Browser opened with url:'',
            Subscribe (Subscription OnDidChangeActiveTextEditor 3),
            LoggerInfo ''Starting server...'', GetStartCommand,
            LoggerInfo ''Starting server with command:'',
            ExecuteTask ''dev'' ''npm run dev'' (Some []), ResolveUrl None,
            Fetch ''http://x/'', ResolveUrl (Some ''/ws/a.md''),
            LoggerInfo ''Resolved url:'',
            LoggerInfo ''Simple Browser opened status:'',
            OpenPreview ''http://x/a'' Beside True,
            LoggerInfo ''Simple Browser opened with url:''],
         listeners =
           [Subscription OnDidEndTask 0, Subscription OnDidCloseTerminal 1,
            Subscription OnDidChangeActiveTextEditor 3],
         nextId = 4\<rparr>"
  unfolding run_append interrupted_logger
  by (simp add: fresh_session_def detect_first_ok timeoutMs_def model_defs input_defs Let_def)

section \<open>After the readiness poll\<close>

text \<open>
  C4 (as amended). When the readiness poll completes, by a probe that succeeded or by the
  timeout, \<open>start()\<close> is neither aborted nor rolled back: it goes on, keeps the editor
  subscription and the task handle, attempts the navigation (it calls the resolver for the
  open document and leaves a navigation waiting for the answer; the effects of that step are
  those of the poll, then this call, then the rendering of the badge, and nothing else) and
  sets the status bar to \<open>started\<close>. What \<open>serverStarted\<close> is afterwards depends on the revision. In \<^verbatim>\<open>part_000\<close> the
  poll does not touch it: it was set to \<open>true\<close> before the poll, so the session is Started if it
  still was when the poll ended. In \<^verbatim>\<open>src/src/SimpleServer.ts\<close> it becomes the result of the
  poll: \<open>true\<close> after a probe that succeeded, \<open>false\<close> after the timeout, and then the session
  stays Spinning under a badge that says \<open>started\<close>.
\<close>

theorem start_after_poll:
  assumes "detectServer rv opt url fetch_ok date_now = Some (ready, effs, t)"
  shows "\<exists>w'. resume_start rv opt h (AwaitDetectServer url) (Det fetch_ok date_now) w = Some (w', None)
    \<and> editorChangeListener w' = editorChangeListener w
    \<and> taskHandler w' = taskHandler w
    \<and> map_option state (statusBar w') = map_option (\<lambda>sb. Started) (statusBar w)
    \<and> map_option appearance (statusBar w') = map_option (\<lambda>sb. started (sbOpt sb)) (statusBar w)
    \<and> (statusBar w \<noteq> None \<longrightarrow> last (trace w') = UpdateInfo Started)
    \<and> serverStarted w' = (if rv = SimpleServer_ts then Some ready else serverStarted w)
    \<and> (rv \<noteq> SimpleServer_ts \<and> serverStarted w = Some True \<longrightarrow> sessionState w' = Session_Started)
    \<and> (rv = SimpleServer_ts \<longrightarrow>
          sessionState w' = (if ready then Session_Started else Session_Spinning))
    \<and> effects_since w w'
        = effs @ map fst (navigation_attempt rv h)
            @ (case statusBar w of None \<Rightarrow> [] | Some sb \<Rightarrow> [UpdateInfo Started])
    \<and> pending w' = pending w @ map snd (navigation_attempt rv h)
    \<and> (\<forall>uri. activeTextEditor h = Some uri
            \<and> (rv = SimpleServer_ts \<longrightarrow> getWorkspaceFolder h uri \<noteq> None) \<longrightarrow>
          navigation_attempt rv h = [(ResolveUrl (Some uri), NavFrame (AwaitResolveUrl uri))])"
proof -
  define w1 where "w1 = w\<lparr>trace := trace w @ effs\<rparr>"
  define w2 where "w2 = (if rv = SimpleServer_ts then w1\<lparr>serverStarted := Some ready\<rparr> else w1)"
  define w' where "w' = start_finish rv h w2"
  have r: "resume_start rv opt h (AwaitDetectServer url) (Det fetch_ok date_now) w = Some (w', None)"
    using assms by (simp add: w'_def w2_def w1_def Let_def)
  have sb: "statusBar w2 = statusBar w" by (simp add: w2_def w1_def)
  have f: "editorChangeListener w' = editorChangeListener w" "taskHandler w' = taskHandler w"
    "serverStarted w' = (if rv = SimpleServer_ts then Some ready else serverStarted w)"
    "statusBar w' = map_option StatusBar_started (statusBar w)"
    by (simp_all add: w'_def start_finish_fields w2_def w1_def)
  have l: "last (trace w') = UpdateInfo Started" if "statusBar w \<noteq> None"
  proof -
    from that sb obtain b where "statusBar w2 = Some b" by auto
    from start_finish_last [OF this, of rv h] show ?thesis by (auto simp add: w'_def)
  qed
  have s1: "map_option state (statusBar w') = map_option (\<lambda>sb. Started) (statusBar w)"
    and s2: "map_option appearance (statusBar w') = map_option (\<lambda>sb. started (sbOpt sb)) (statusBar w)"
    unfolding f by (cases "statusBar w"; simp add: StatusBar_started_fields)+
  have tr: "trace w2 = trace w @ effs" "pending w2 = pending w"
    by (simp_all add: w2_def w1_def)
  have n1: "effects_since w w'
        = effs @ map fst (navigation_attempt rv h)
            @ (case statusBar w of None \<Rightarrow> [] | Some sb \<Rightarrow> [UpdateInfo Started])"
    by (simp add: effects_since_def w'_def start_finish_navigates tr sb)
  have n2: "pending w' = pending w @ map snd (navigation_attempt rv h)"
    by (simp add: w'_def start_finish_navigates tr)
  have n3: "navigation_attempt rv h = [(ResolveUrl (Some uri), NavFrame (AwaitResolveUrl uri))]"
    if "activeTextEditor h = Some uri" "rv = SimpleServer_ts \<longrightarrow> getWorkspaceFolder h uri \<noteq> None"
    for uri
    using that by (auto simp add: navigation_attempt_def)
  have old: "editorChangeListener w' = editorChangeListener w
    \<and> taskHandler w' = taskHandler w
    \<and> map_option state (statusBar w') = map_option (\<lambda>sb. Started) (statusBar w)
    \<and> map_option appearance (statusBar w') = map_option (\<lambda>sb. started (sbOpt sb)) (statusBar w)
    \<and> (statusBar w \<noteq> None \<longrightarrow> last (trace w') = UpdateInfo Started)
    \<and> serverStarted w' = (if rv = SimpleServer_ts then Some ready else serverStarted w)
    \<and> (rv \<noteq> SimpleServer_ts \<and> serverStarted w = Some True \<longrightarrow> sessionState w' = Session_Started)
    \<and> (rv = SimpleServer_ts \<longrightarrow>
          sessionState w' = (if ready then Session_Started else Session_Spinning))"
    using f(1-3) l s1 s2 by (auto simp add: sessionState_def)
  show ?thesis
    using r old n1 n2 n3 by blast
qed

text \<open>
  The claim as stated fails in \<^verbatim>\<open>src/src/SimpleServer.ts\<close>: an uninterrupted \<open>start()\<close>
  against an endpoint that never answers ends with the badge \<open>started\<close> and \<open>serverStarted\<close>
  \<open>false\<close>.
\<close>

theorem start_after_poll_counterexample:
  "detectServer SimpleServer_ts auto_options ''http://x/'' never_ok steady_clock
     = Some (False, concat (replicate 30 (failed_round SimpleServer_ts ''http://x/'')), 15000)
   \<and> pending (run SimpleServer_ts auto_options uninterrupted
        (construct SimpleServer_ts auto_options editing_host))
      = [NavFrame (AwaitResolveUrl ''/ws/a.md'')]
   \<and> map_option state (statusBar (run SimpleServer_ts auto_options uninterrupted
        (construct SimpleServer_ts auto_options editing_host))) = Some Started
   \<and> serverStarted (run SimpleServer_ts auto_options uninterrupted
        (construct SimpleServer_ts auto_options editing_host)) = Some False
   \<and> sessionState (run SimpleServer_ts auto_options uninterrupted
        (construct SimpleServer_ts auto_options editing_host)) = Session_Spinning"
  by (simp add: uninterrupted_ts detect_never_ts sessionState_def StatusBar_started_fields)

text \<open>
  The timeout in \<^verbatim>\<open>part_000\<close>: the session ends Started.
\<close>

theorem start_after_poll_witness:
  "detectServer Part000_plain auto_options ''http://x/'' never_ok steady_clock
     = Some (True, concat (replicate 20 (failed_round Part000_plain ''http://x/'')), 10000)
   \<and> (\<exists>w'. resume_start Part000_plain auto_options editing_host (AwaitDetectServer ''http://x/'')
              (Det never_ok steady_clock)
              (run Part000_plain auto_options (butlast uninterrupted)
                 (construct Part000_plain auto_options editing_host))
            = Some (w', None)
          \<and> editorChangeListener w' = Some (Subscription OnDidChangeActiveTextEditor 2)
          \<and> taskHandler w' = Some (ExecutionHandle 1)
          \<and> map_option state (statusBar w') = Some Started
          \<and> last (trace w') = UpdateInfo Started
          \<and> sessionState w' = Session_Started
          \<and> effects_since
               (run Part000_plain auto_options (butlast uninterrupted)
                  (construct Part000_plain auto_options editing_host)) w'
             = concat (replicate 20 (failed_round Part000_plain ''http://x/''))
                 @ [ResolveUrl (Some ''/ws/a.md''), UpdateInfo Started]
          \<and> pending w'
             = [StartFrame (AwaitDetectServer ''http://x/''), NavFrame (AwaitResolveUrl ''/ws/a.md'')])"
proof -
  let ?w = "run Part000_plain auto_options (butlast uninterrupted)
              (construct Part000_plain auto_options editing_host)"
  have d: "detectServer Part000_plain auto_options ''http://x/'' never_ok steady_clock
     = Some (True, concat (replicate 20 (failed_round Part000_plain ''http://x/'')), 10000)"
    by (rule detect_never_part000) (simp_all add: auto_options_def dev_options_def)
  have f: "editorChangeListener ?w = Some (Subscription OnDidChangeActiveTextEditor 2)"
    "taskHandler ?w = Some (ExecutionHandle 1)" "serverStarted ?w = Some True"
    "statusBar ?w = Some (StatusBar_spinning (new_StatusBar badge))"
    "pending ?w = [StartFrame (AwaitDetectServer ''http://x/'')]"
    by (simp_all add: before_poll_plain)
  have n: "navigation_attempt Part000_plain editing_host
      = [(ResolveUrl (Some ''/ws/a.md''), NavFrame (AwaitResolveUrl ''/ws/a.md''))]"
    by (simp add: navigation_attempt_def editing_host_def)
  from start_after_poll [OF d, of editing_host ?w] obtain w' where
    w': "resume_start Part000_plain auto_options editing_host (AwaitDetectServer ''http://x/'')
           (Det never_ok steady_clock) ?w = Some (w', None)"
      "editorChangeListener w' = editorChangeListener ?w"
      "taskHandler w' = taskHandler ?w"
      "map_option state (statusBar w') = map_option (\<lambda>sb. Started) (statusBar ?w)"
      "statusBar ?w \<noteq> None \<longrightarrow> last (trace w') = UpdateInfo Started"
      "Part000_plain \<noteq> SimpleServer_ts \<and> serverStarted ?w = Some True \<longrightarrow>
         sessionState w' = Session_Started"
      "effects_since ?w w'
         = concat (replicate 20 (failed_round Part000_plain ''http://x/''))
            @ map fst (navigation_attempt Part000_plain editing_host)
            @ (case statusBar ?w of None \<Rightarrow> [] | Some sb \<Rightarrow> [UpdateInfo Started])"
      "pending w' = pending ?w @ map snd (navigation_attempt Part000_plain editing_host)"
    by blast
  have "editorChangeListener w' = Some (Subscription OnDidChangeActiveTextEditor 2)
      \<and> taskHandler w' = Some (ExecutionHandle 1)
      \<and> map_option state (statusBar w') = Some Started
      \<and> last (trace w') = UpdateInfo Started
      \<and> sessionState w' = Session_Started
      \<and> effects_since ?w w'
         = concat (replicate 20 (failed_round Part000_plain ''http://x/''))
             @ [ResolveUrl (Some ''/ws/a.md''), UpdateInfo Started]
      \<and> pending w'
         = [StartFrame (AwaitDetectServer ''http://x/''), NavFrame (AwaitResolveUrl ''/ws/a.md'')]"
    using w'(2-8) f n by simp
  with w'(1) d show ?thesis by blast
qed

section \<open>serverStarted is set before the poll\<close>

text \<open>
  C9. In both revisions of \<^verbatim>\<open>part_000\<close>, when \<open>start()\<close> resumes after \<open>_startTask\<close> (a
  terminal adopted or a task launched), it sets \<open>serverStarted\<close> to \<open>true\<close> without any
  condition and only then calls \<open>resolveUrl()\<close>: no probe has been issued yet, and the step to
  the poll changes nothing. From that state on \<open>_openUrl\<close> records every url it opens as
  \<open>currentUrl\<close>, whether or not the server ever answers a probe.
\<close>

theorem serverStarted_before_poll:
  assumes "rv \<noteq> SimpleServer_ts"
  shows "\<exists>w'. resume_start rv opt h AwaitStartTask Tick w = Some (w', Some AwaitRootUrl)
    \<and> serverStarted w' = Some True
    \<and> effects_since w w' = [ResolveUrl None]
    \<and> currentUrl w' = currentUrl w
    \<and> (\<forall>url. url \<noteq> [] \<longrightarrow>
          resume_start rv opt h AwaitRootUrl (Url (Some url)) w' = Some (w', Some (AwaitDetectServer url)))
    \<and> (\<forall>h' url. \<not> (currentUrl w' = Some url \<and> hasSimpleBrowserOpened h') \<longrightarrow>
          currentUrl (fst (openUrl rv h' url w')) = Some url
          \<and> serverStarted (fst (openUrl rv h' url w')) = Some True)"
  using assms
  by (simp add: Let_def effects_since_def emit_def openUrl_def logger_info_def)

text \<open>
  At the state reached by launching a task: \<open>serverStarted\<close> is \<open>false\<close> before the step and
  \<open>true\<close> after it, and a navigation is recorded.
\<close>

theorem serverStarted_before_poll_witness:
  "pending (run Part000_plain dev_options launch (construct Part000_plain dev_options empty_host))
     = [StartFrame AwaitStartTask]
   \<and> serverStarted (run Part000_plain dev_options launch (construct Part000_plain dev_options empty_host))
     = Some False
   \<and> (\<exists>w'. resume_start Part000_plain dev_options editing_host AwaitStartTask Tick
              (run Part000_plain dev_options launch (construct Part000_plain dev_options empty_host))
            = Some (w', Some AwaitRootUrl)
          \<and> serverStarted w' = Some True
          \<and> effects_since
               (run Part000_plain dev_options launch (construct Part000_plain dev_options empty_host)) w'
             = [ResolveUrl None]
          \<and> resume_start Part000_plain dev_options editing_host AwaitRootUrl (Url (Some ''http://x/'')) w'
             = Some (w', Some (AwaitDetectServer ''http://x/''))
          \<and> currentUrl (fst (openUrl Part000_plain editing_host ''http://x/a'' w')) = Some ''http://x/a'')"
proof -
  let ?w = "run Part000_plain dev_options launch (construct Part000_plain dev_options empty_host)"
  have f: "pending ?w = [StartFrame AwaitStartTask]" "serverStarted ?w = Some False"
    "currentUrl ?w = None"
    by (simp_all add: launch_def model_defs input_defs Let_def)
  have r: "Part000_plain \<noteq> SimpleServer_ts" by simp
  have n: "''http://x/'' \<noteq> []" by simp
  from serverStarted_before_poll [OF r, of dev_options editing_host ?w] f n show ?thesis
    by auto
qed

section \<open>Effects that only start() produces\<close>

text \<open>
  The command provider is called, and the badge is set to \<open>spinning\<close>, by the first part of
  \<open>start()\<close> alone: no other event adds one of these two effects.
\<close>

lemma occurrences_stop:
  assumes "x = GetStartCommand \<or> x = UpdateInfo Spinning"
  shows "occurrences x (stop w) = occurrences x w"
  using assms
  by (auto simp add: occurrences_def stop_def statusBar_call_def dispose_handle_def emit_def Let_def
      StatusBar_stopped_fields split: option.splits)

lemma occurrences_navigateCurrentPage:
  assumes "x = GetStartCommand \<or> x = UpdateInfo Spinning"
  shows "occurrences x (navigateCurrentPage rv h w) = occurrences x w"
  using assms
  by (auto simp add: occurrences_def navigateCurrentPage_def emit_def split: option.splits)

lemma occurrences_start_finish:
  assumes "x = GetStartCommand \<or> x = UpdateInfo Spinning"
  shows "occurrences x (start_finish rv h w) = occurrences x w"
  using assms occurrences_navigateCurrentPage [OF assms, of rv h w]
  by (auto simp add: occurrences_def start_finish_def statusBar_call_def emit_def
      navigateCurrentPage_fields StatusBar_started_fields split: option.splits)

lemma occurrences_openUrl:
  assumes "x = GetStartCommand \<or> x = UpdateInfo Spinning"
    and "openUrl rv h url w = (w', pc)"
  shows "occurrences x w' = occurrences x w"
  using assms
  by (auto simp add: occurrences_def openUrl_def logger_info_def emit_def Let_def split: if_splits)

lemma occurrences_resume_nav:
  assumes "x = GetStartCommand \<or> x = UpdateInfo Spinning"
    and "resume_nav rv h pc r w = Some (w', pc')"
  shows "occurrences x w' = occurrences x w"
proof (cases pc)
  case (AwaitResolveUrl uri)
  have l: "occurrences x (logger_info rv m w) = occurrences x w" for m
    using assms(1) by (auto simp add: occurrences_def logger_info_def emit_def)
  show ?thesis
    using assms(2) AwaitResolveUrl l
    by (cases r) (auto simp add: Let_def split: option.splits if_splits
        dest!: occurrences_openUrl [OF assms(1)])
next
  case (AwaitOpenUrl url)
  then show ?thesis
    using assms by (cases r) (auto simp add: occurrences_def logger_info_def emit_def)
qed

lemma occurrences_resume_start:
  assumes x: "x = GetStartCommand \<or> x = UpdateInfo Spinning"
    and r: "resume_start rv opt h pc r w = Some (w', pc')"
  shows "occurrences x w' = occurrences x w"
proof (cases pc)
  case AwaitGetStartCommand
  then show ?thesis using x r
    by (cases r) (auto simp add: occurrences_def logger_info_def emit_def Let_def)
next
  case AwaitExecuteTask
  then show ?thesis using x r by (cases r) (auto simp add: occurrences_def)
next
  case AwaitStartTask
  then show ?thesis using x r
    by (cases r) (auto simp add: occurrences_def emit_def Let_def)
next
  case AwaitRootUrl
  then show ?thesis using x r occurrences_start_finish [OF x, of rv h w]
    by (cases r) (auto split: option.splits if_splits)
next
  case (AwaitDetectServer url)
  show ?thesis
  proof (cases r)
    case (Det fetch_ok date_now)
    with r AwaitDetectServer obtain ready effs t where
      d: "detectServer rv opt url fetch_ok date_now = Some (ready, effs, t)"
      and w': "w' = start_finish rv h
          (if rv = SimpleServer_ts then w\<lparr>trace := trace w @ effs, serverStarted := Some ready\<rparr>
           else w\<lparr>trace := trace w @ effs\<rparr>)"
      by (auto simp add: Let_def split: option.splits)
    have "count_list effs x = 0" using detectServer_count [OF d] x by auto
    then show ?thesis
      unfolding w' using occurrences_start_finish [OF x]
      by (simp add: occurrences_def)
  qed (use r AwaitDetectServer in simp_all)
qed

lemma occurrences_settle: "occurrences x (settle i f w) = occurrences x w"
  by (simp add: occurrences_def settle_def split: option.splits)

lemma occurrences_resume:
  assumes "x = GetStartCommand \<or> x = UpdateInfo Spinning"
  shows "occurrences x (resume rv opt h i r w) = occurrences x w"
  using occurrences_resume_start [OF assms] occurrences_resume_nav [OF assms]
  by (auto simp add: resume_def occurrences_settle split: frame.splits option.splits)

lemma occurrences_fold:
  assumes "\<And>d v. occurrences x (f d v) = occurrences x v"
  shows "occurrences x (fold f ds w) = occurrences x w"
  using assms by (induction ds arbitrary: w) simp_all

lemma occurrences_dispose_handle:
  assumes "x = GetStartCommand \<or> x = UpdateInfo Spinning"
  shows "occurrences x (dispose_handle d w) = occurrences x w"
  using assms by (auto simp add: occurrences_def dispose_handle_def emit_def)

lemma occurrences_dispose:
  assumes "x = GetStartCommand \<or> x = UpdateInfo Spinning"
  shows "occurrences x (dispose w) = occurrences x w"
proof -
  have "occurrences x (case statusBar (stop w) of None \<Rightarrow> stop w
          | Some sb \<Rightarrow> emit DisposeItem (stop w\<lparr>statusBar := Some (StatusBar_dispose sb)\<rparr>))
        = occurrences x w"
    using assms occurrences_stop [OF assms, of w]
    by (auto simp add: occurrences_def emit_def split: option.splits)
  then show ?thesis
    by (simp add: dispose_def Let_def occurrences_fold occurrences_dispose_handle [OF assms])
qed

lemma occurrences_step:
  assumes "x = GetStartCommand \<or> x = UpdateInfo Spinning" and "\<not> calls_start e"
  shows "occurrences x (step rv opt h e w) = occurrences x w"
  using assms(2)
  by (cases e)
     (simp_all add: occurrences_stop [OF assms(1)] occurrences_dispose [OF assms(1)]
        occurrences_resume [OF assms(1)] deliver_def occurrences_fold onDidEndTask_def
        onDidCloseTerminal_def occurrences_navigateCurrentPage [OF assms(1)])

lemma occurrences_run:
  assumes "x = GetStartCommand \<or> x = UpdateInfo Spinning" and "\<forall>(h, e) \<in> set es. \<not> calls_start e"
  shows "occurrences x (run rv opt es w) = occurrences x w"
  using assms(2)
  by (induction es arbitrary: w) (auto simp add: occurrences_step [OF assms(1)])

section \<open>Reusing a running terminal\<close>

lemma start_adopts:
  assumes "\<not> isStarted w"
    and "find (\<lambda>t. name t = taskName opt) (terminals h) = Some t"
    and "exitStatus t = None"
  shows "taskHandler (start rv opt h w) = Some (TerminalHandle t)"
    and "pending (start rv opt h w) = pending w @ [StartFrame AwaitStartTask]"
    and "occurrences GetStartCommand (start rv opt h w) = occurrences GetStartCommand w"
  using assms
  by (simp_all add: start_def startTask_def subscribe_def statusBar_call_def emit_def
      logger_info_def occurrences_def Let_def split: option.splits)

text \<open>
  C1 (as amended). For every call of \<open>start()\<close> that passes the entry guard (\<open>isStarted\<close> is
  false), made while the first terminal of \<open>window.terminals\<close> that carries the configured task
  name has not exited: the controller adopts that terminal as its task handle, \<open>start()\<close>
  waits for the promise of \<open>_startTask\<close>, and the command provider is not invoked, neither by
  the call nor by anything that follows it until \<open>start()\<close> is called again (by \<open>start\<close> or
  \<open>toggle\<close>).
\<close>

theorem start_reuses_terminal:
  assumes "\<not> isStarted w"
    and "find (\<lambda>t. name t = taskName opt) (terminals h) = Some t"
    and "exitStatus t = None"
    and "\<forall>(h', e) \<in> set es. \<not> calls_start e"
  shows "taskHandler (start rv opt h w) = Some (TerminalHandle t)
    \<and> pending (start rv opt h w) = pending w @ [StartFrame AwaitStartTask]
    \<and> occurrences GetStartCommand (start rv opt h w) = occurrences GetStartCommand w
    \<and> occurrences GetStartCommand (run rv opt es (start rv opt h w)) = occurrences GetStartCommand w"
  using start_adopts [OF assms(1-3), of rv] occurrences_run [OF _ assms(4), of GetStartCommand rv opt]
  by simp

text \<open>
  A terminal named \<open>dev\<close> is running when \<open>start()\<close> is called; the session is then
  continued and stopped.
\<close>

theorem start_reuses_terminal_witness:
  "taskHandler (start Part000_logger dev_options live_host (construct Part000_logger dev_options empty_host))
     = Some (TerminalHandle \<lparr>name = ''dev'', exitStatus = None\<rparr>)
   \<and> occurrences GetStartCommand
        (run Part000_logger dev_options
          [(live_host, Resume 0 Tick), (live_host, Resume 0 (Url None)), (live_host, CallStop)]
          (start Part000_logger dev_options live_host (construct Part000_logger dev_options empty_host)))
     = 0"
proof -
  let ?w = "construct Part000_logger dev_options empty_host"
  let ?es = "[(live_host, Resume 0 Tick), (live_host, Resume 0 (Url None)), (live_host, CallStop)]"
  have a: "\<not> isStarted ?w"
    by (simp add: model_defs input_defs Let_def)
  have b: "find (\<lambda>t. name t = taskName dev_options) (terminals live_host)
      = Some \<lparr>name = ''dev'', exitStatus = None\<rparr>"
    by (simp add: live_host_def input_defs)
  have c: "exitStatus \<lparr>name = ''dev'', exitStatus = None\<rparr> = None" by simp
  have d: "\<forall>(h', e) \<in> set ?es. \<not> calls_start e" by simp
  have e: "occurrences GetStartCommand ?w = 0"
    by (simp add: occurrences_def model_defs input_defs Let_def)
  show ?thesis
    using start_reuses_terminal [OF a b c d, of Part000_logger] e by simp
qed

text \<open>
  The claim as stated fails in two ways. A terminal named \<open>dev\<close> that has not exited
  exists, but an exited terminal of the same name precedes it in \<open>window.terminals\<close>:
  \<open>find\<close> returns the exited one, nothing is adopted and the command provider is invoked.
  And a \<open>start()\<close> called while the controller is started returns at the guard: the task
  handle stays the launched execution, the running terminal is not adopted.
\<close>

theorem start_reuses_terminal_counterexample:
  "\<lparr>name = ''dev'', exitStatus = None\<rparr> \<in> set (terminals shadowed_host)
   \<and> taskName dev_options = ''dev''
   \<and> taskHandler (start Part000_logger dev_options shadowed_host
        (construct Part000_logger dev_options empty_host)) = None
   \<and> occurrences GetStartCommand (construct Part000_logger dev_options empty_host) = 0
   \<and> occurrences GetStartCommand (start Part000_logger dev_options shadowed_host
        (construct Part000_logger dev_options empty_host)) = 1
   \<and> \<lparr>name = ''dev'', exitStatus = None\<rparr> \<in> set (terminals live_host)
   \<and> isStarted (run Part000_logger dev_options launch (construct Part000_logger dev_options empty_host))
   \<and> taskHandler (start Part000_logger dev_options live_host
        (run Part000_logger dev_options launch (construct Part000_logger dev_options empty_host)))
      = Some (ExecutionHandle 1)"
  by (simp add: model_defs input_defs shadowed_host_def live_host_def launch_def occurrences_def Let_def)

section \<open>The auto start of src/src/SimpleServer.ts\<close>

lemma rendered_member: "(s \<in> set (rendered es)) = (UpdateInfo s \<in> set es)"
  by (induction es rule: rendered.induct) auto

lemma not_rendered_iff: "(s \<notin> set (rendered (trace w))) = (occurrences (UpdateInfo s) w = 0)"
  by (simp add: rendered_member occurrences_def count_list_0_iff)

lemma construct_ts_auto:
  assumes "autoStart opt = Some True" "optStatusBar opt = Some c"
  shows "rendered (trace (construct SimpleServer_ts opt h)) = [Stopped]"
    and "statusBar (construct SimpleServer_ts opt h) = Some (new_StatusBar c)"
    and "isStarted (construct SimpleServer_ts opt h)"
    and "serverStarted (construct SimpleServer_ts opt h) = Some False"
    and "\<exists>pc. pending (construct SimpleServer_ts opt h) = [StartFrame pc]"
  using assms
  by (simp_all add: construct_def register_def init_statusBar_def initial_def addDisposable_def
      subscribe_def start_def startTask_def isStarted_def statusBar_call_def emit_def
      logger_info_def Let_def rendered_append split: option.splits)

lemma rendered_start_finish:
  "statusBar w = Some sb \<Longrightarrow> rendered (trace (start_finish rv h w)) = rendered (trace w) @ [Started]"
  by (simp add: start_finish_def statusBar_call_def emit_def navigateCurrentPage_fields
      navigateCurrentPage_def StatusBar_started_fields rendered_append split: option.splits)

lemma last_segment_renders_started:
  assumes "statusBar w = Some sb"
    and "detectServer rv opt url fetch_ok date_now = Some r"
  shows "\<exists>w'. resume_start rv opt h (AwaitDetectServer url) (Det fetch_ok date_now) w = Some (w', None)
     \<and> rendered (trace w') = rendered (trace w) @ [Started]"
proof -
  obtain ready effs t where r: "r = (ready, effs, t)" by (cases r) auto
  have e: "rendered effs = []" using detectServer_rendered assms(2) r by blast
  show ?thesis
    using assms e by (simp add: r Let_def rendered_start_finish rendered_append)
qed

text \<open>
  C10. In \<^verbatim>\<open>src/src/SimpleServer.ts\<close> with \<open>autoStart\<close> and a status bar configured, the
  constructor calls \<open>start()\<close> before it creates the status bar: when the constructor returns,
  the session is started and spinning, one frame of \<open>start\<close> is pending, and the badge has been
  rendered once, as \<open>stopped\<close>. Whatever happens next, short of another call of \<open>start()\<close>
  (by \<open>start\<close> or \<open>toggle\<close>), the badge is never rendered as \<open>spinning\<close>; and the last part of
  \<open>start()\<close>, after the poll, renders it as \<open>started\<close>.
\<close>

theorem autoStart_never_spinning:
  assumes "autoStart opt = Some True"
    and "optStatusBar opt = Some c"
    and "\<forall>(h', e) \<in> set es. \<not> calls_start e"
  shows "rendered (trace (construct SimpleServer_ts opt h)) = [Stopped]
    \<and> map_option state (statusBar (construct SimpleServer_ts opt h)) = Some Stopped
    \<and> map_option appearance (statusBar (construct SimpleServer_ts opt h)) = Some (stopped c)
    \<and> isStarted (construct SimpleServer_ts opt h)
    \<and> sessionState (construct SimpleServer_ts opt h) = Session_Spinning
    \<and> (\<exists>pc. pending (construct SimpleServer_ts opt h) = [StartFrame pc])
    \<and> Spinning \<notin> set (rendered (trace (run SimpleServer_ts opt es (construct SimpleServer_ts opt h))))
    \<and> (\<forall>w h' url fetch_ok date_now r.
          statusBar w \<noteq> None \<and> detectServer SimpleServer_ts opt url fetch_ok date_now = Some r \<longrightarrow>
          (\<exists>w'. resume_start SimpleServer_ts opt h' (AwaitDetectServer url) (Det fetch_ok date_now) w
                  = Some (w', None)
               \<and> rendered (trace w') = rendered (trace w) @ [Started]))"
proof -
  note c = construct_ts_auto [OF assms(1,2), of h]
  have "Spinning \<notin> set (rendered (trace (construct SimpleServer_ts opt h)))"
    using c(1) by simp
  then have "occurrences (UpdateInfo Spinning) (construct SimpleServer_ts opt h) = 0"
    by (simp add: not_rendered_iff)
  then have "occurrences (UpdateInfo Spinning)
      (run SimpleServer_ts opt es (construct SimpleServer_ts opt h)) = 0"
    using occurrences_run [OF _ assms(3), of "UpdateInfo Spinning" SimpleServer_ts opt] by simp
  then have never: "Spinning \<notin> set (rendered (trace (run SimpleServer_ts opt es (construct SimpleServer_ts opt h))))"
    by (simp add: not_rendered_iff)
  have last: "\<exists>w'. resume_start SimpleServer_ts opt h' (AwaitDetectServer url) (Det fetch_ok date_now) w
                  = Some (w', None)
               \<and> rendered (trace w') = rendered (trace w) @ [Started]"
    if "statusBar w \<noteq> None" "detectServer SimpleServer_ts opt url fetch_ok date_now = Some r"
    for w h' url fetch_ok date_now r
    using that last_segment_renders_started [of w _ SimpleServer_ts opt url fetch_ok date_now r h']
    by auto
  have st: "map_option state (statusBar (construct SimpleServer_ts opt h)) = Some Stopped"
    and ap: "map_option appearance (statusBar (construct SimpleServer_ts opt h)) = Some (stopped c)"
    and ss: "sessionState (construct SimpleServer_ts opt h) = Session_Spinning"
    using c(2,4) by (simp_all add: new_StatusBar_fields sessionState_def)
  show ?thesis
    using c(1) st ap c(3) ss c(5) never last by blast
qed

text \<open>
  The auto-started session run to its end: the badge was \<open>stopped\<close>, then \<open>started\<close>.
\<close>

theorem autoStart_never_spinning_witness:
  "rendered (trace (construct SimpleServer_ts auto_options editing_host)) = [Stopped]
   \<and> sessionState (construct SimpleServer_ts auto_options editing_host) = Session_Spinning
   \<and> Spinning \<notin> set (rendered (trace (run SimpleServer_ts auto_options uninterrupted
        (construct SimpleServer_ts auto_options editing_host))))
   \<and> rendered (trace (run SimpleServer_ts auto_options uninterrupted
        (construct SimpleServer_ts auto_options editing_host))) = [Stopped, Started]"
proof -
  have a: "autoStart auto_options = Some True" "optStatusBar auto_options = Some badge"
    by (simp_all add: auto_options_def)
  have b: "\<forall>(h', e) \<in> set uninterrupted. \<not> calls_start e"
    by (simp add: uninterrupted_def)
  have c: "rendered (trace (run SimpleServer_ts auto_options uninterrupted
        (construct SimpleServer_ts auto_options editing_host))) = [Stopped, Started]"
    by (simp add: uninterrupted_ts rendered_append rendered_rounds)
  from autoStart_never_spinning [OF a b, of editing_host] c show ?thesis
    by simp
qed

text \<open>
  In \<^verbatim>\<open>part_000\<close> the status bar exists before the auto start and does show \<open>spinning\<close>.
\<close>

lemma construct_part000_auto:
  assumes "rv \<noteq> SimpleServer_ts" "autoStart opt = Some True" "optStatusBar opt = Some c"
  shows "rendered (trace (construct rv opt h)) = [Stopped, Spinning]"
  using assms
  by (simp add: construct_def register_def init_statusBar_def initial_def addDisposable_def
      subscribe_def start_def startTask_def isStarted_def statusBar_call_def emit_def
      logger_info_def Let_def rendered_append StatusBar_spinning_def updateInfo_def
      split: option.splits)

section \<open>The session invariant\<close>

lemma consistent_iff: "consistent w = ((editorChangeListener w = None) = (serverStarted w = None))"
  by (cases "serverStarted w") (auto simp add: consistent_def isStarted_def sessionState_def)

lemma consistent_stop: "consistent (stop w)"
  by (simp add: consistent_iff stop_clears)

lemma consistent_start: "consistent w \<Longrightarrow> consistent (start rv opt h w)"
  by (auto simp add: consistent_iff start_def startTask_def isStarted_def subscribe_def
      statusBar_call_def emit_def logger_info_def Let_def split: option.splits)

lemma consistent_navigateCurrentPage: "consistent (navigateCurrentPage rv h w) = consistent w"
  by (simp add: consistent_iff navigateCurrentPage_fields)

lemma consistent_fold:
  assumes "\<And>v. consistent v \<Longrightarrow> consistent (f v)"
  shows "consistent w \<Longrightarrow> consistent (fold (\<lambda>d. f) ds w)"
  using assms by (induction ds arbitrary: w) simp_all

text \<open>Every other resumption of \<open>start()\<close> leaves \<open>serverStarted\<close> alone.\<close>

lemma resume_start_serverStarted:
  assumes "resume_start rv opt h pc r w = Some (w', pc')"
    and "\<not> assigning_frame rv (StartFrame pc)"
  shows "serverStarted w' = serverStarted w"
proof (cases pc)
  case AwaitGetStartCommand
  then show ?thesis using assms by (cases r) (auto simp add: Let_def logger_info_def emit_def)
next
  case AwaitExecuteTask
  then show ?thesis using assms by (cases r) auto
next
  case AwaitStartTask
  then show ?thesis using assms by (cases r) (auto simp add: Let_def emit_def)
next
  case AwaitRootUrl
  then show ?thesis using assms
    by (cases r) (auto simp add: start_finish_fields split: option.splits if_splits)
next
  case (AwaitDetectServer url)
  then show ?thesis using assms
    by (cases r) (auto simp add: Let_def start_finish_fields split: option.splits if_splits)
qed

lemma consistent_resume:
  assumes c: "consistent w"
    and a: "assigns_serverStarted rv w (Resume i r) \<longrightarrow> isStarted w"
  shows "consistent (resume rv opt h i r w)"
proof (cases "i < length (pending w)")
  case False
  then show ?thesis using c by (simp add: resume_def)
next
  case True
  show ?thesis
  proof (cases "pending w ! i")
    case (NavFrame pc)
    show ?thesis
    proof (cases "resume_nav rv h pc r w")
      case None
      then show ?thesis using c True NavFrame by (simp add: resume_def)
    next
      case (Some p)
      obtain w1 pc1 where p: "p = (w1, pc1)" by (cases p) auto
      from resume_nav_keeps(1,2) [OF Some [unfolded p]] c
      have "consistent (settle i (map_option NavFrame pc1) w1)"
        by (simp add: consistent_iff settle_fields)
      then show ?thesis using True NavFrame Some p by (simp add: resume_def)
    qed
  next
    case (StartFrame pc)
    show ?thesis
    proof (cases "resume_start rv opt h pc r w")
      case None
      then show ?thesis using c True StartFrame by (simp add: resume_def)
    next
      case (Some p)
      obtain w1 pc1 where p: "p = (w1, pc1)" by (cases p) auto
      note r = Some [unfolded p]
      have "consistent (settle i (map_option StartFrame pc1) w1)"
      proof (cases "assigning_frame rv (StartFrame pc)")
        case False
        from resume_start_keeps(1) [OF r] resume_start_serverStarted [OF r False] c
        show ?thesis by (simp add: consistent_iff settle_fields)
      next
        case assigning: True
        with a True StartFrame have "isStarted w" by simp
        with c have s: "editorChangeListener w \<noteq> None" "serverStarted w \<noteq> None"
          by (simp_all add: consistent_iff isStarted_def)
        from resume_start_keeps(1,4) [OF r] s
        show ?thesis by (auto simp add: consistent_iff settle_fields)
      qed
      then show ?thesis using True StartFrame Some p by (simp add: resume_def)
    qed
  qed
qed

text \<open>The two assigning resumptions, taken without the editor subscription, do break the
  invariant.\<close>

lemma assigning_resume_breaks:
  assumes "\<not> isStarted w" "i < length (pending w)"
  shows "rv \<noteq> SimpleServer_ts \<Longrightarrow> pending w ! i = StartFrame AwaitStartTask \<Longrightarrow>
      \<not> consistent (resume rv opt h i Tick w)"
    and "detectServer SimpleServer_ts opt url fetch_ok date_now = Some res \<Longrightarrow>
      pending w ! i = StartFrame (AwaitDetectServer url) \<Longrightarrow>
      \<not> consistent (resume SimpleServer_ts opt h i (Det fetch_ok date_now) w)"
  using assms
  by (auto simp add: resume_def consistent_iff isStarted_def settle_fields start_finish_fields
      emit_def Let_def split: prod.splits)

text \<open>
  C7 (as amended). The invariant: the editor subscription is there if and only if the
  session is not Stopped; in other words \<open>isStarted\<close> holds exactly when the session is
  Spinning or Started. It holds when the constructor returns. It is preserved by \<open>start\<close> up to
  its first \<open>await\<close>, by \<open>stop\<close>, \<open>toggle\<close>, \<open>dispose\<close> and the three listeners, and by every
  resumption of a pending navigation or \<open>start()\<close>, whether or not the editor subscription is
  still there, with one exception: the resumption of \<open>start()\<close> that assigns \<open>serverStarted\<close>
  (after \<open>await this._startTask()\<close> in \<^verbatim>\<open>part_000\<close>, after \<open>await this._detectServer(rootUrl)\<close>
  in \<^verbatim>\<open>src/src/SimpleServer.ts\<close>) preserves it when the editor subscription is still there,
  and breaks it when the subscription is gone.
  A \<open>start()\<close> called while \<open>isStarted\<close> is true changes nothing at all.
\<close>

theorem session_invariant:
  "consistent w = ((editorChangeListener w \<noteq> None) = (sessionState w \<noteq> Session_Stopped))
   \<and> consistent w
       = (isStarted w = (sessionState w = Session_Spinning \<or> sessionState w = Session_Started))
   \<and> consistent (construct rv opt h0)
   \<and> (consistent w \<and> (assigns_serverStarted rv w e \<longrightarrow> isStarted w) \<longrightarrow>
        consistent (step rv opt h e w))
   \<and> (\<not> isStarted w \<and> i < length (pending w) \<and> pending w ! i = StartFrame AwaitStartTask
        \<and> rv \<noteq> SimpleServer_ts \<longrightarrow>
        \<not> consistent (step rv opt h (Resume i Tick) w))
   \<and> (\<not> isStarted w \<and> i < length (pending w) \<and> pending w ! i = StartFrame (AwaitDetectServer url)
        \<and> detectServer SimpleServer_ts opt url fetch_ok date_now = Some res \<longrightarrow>
        \<not> consistent (step SimpleServer_ts opt h (Resume i (Det fetch_ok date_now)) w))
   \<and> (isStarted w \<longrightarrow> start rv opt h w = w)"
proof -
  have a: "consistent w = ((editorChangeListener w \<noteq> None) = (sessionState w \<noteq> Session_Stopped))"
    by (simp add: consistent_def isStarted_def)
  have b: "consistent w
       = (isStarted w = (sessionState w = Session_Spinning \<or> sessionState w = Session_Started))"
    by (cases "sessionState w") (auto simp add: consistent_def)
  have i: "consistent initial" by (simp add: consistent_iff initial_def)
  have reg: "consistent (register k v) = consistent v" for k v
    by (simp add: consistent_iff register_def subscribe_def addDisposable_def emit_def Let_def)
  have sb: "consistent (init_statusBar opt v) = consistent v" for v
    by (simp add: consistent_iff init_statusBar_def emit_def split: option.splits)
  have c: "consistent (construct rv opt h0)"
    by (simp add: construct_def Let_def reg sb i consistent_start)
  have d: "consistent (step rv opt h e w)"
    if "consistent w" "assigns_serverStarted rv w e \<longrightarrow> isStarted w"
  proof (cases e)
    case CallStart
    then show ?thesis using that by (simp add: consistent_start)
  next
    case CallStop
    then show ?thesis by (simp add: consistent_stop)
  next
    case CallToggle
    then show ?thesis using that by (simp add: toggle_def consistent_start consistent_stop)
  next
    case CallDispose
    then show ?thesis by (simp add: consistent_iff dispose_clears)
  next
    case (TaskEnded n)
    then show ?thesis using that(1)
      by (simp add: deliver_def onDidEndTask_def consistent_fold consistent_stop)
  next
    case (TerminalClosed n)
    then show ?thesis using that(1)
      by (simp add: deliver_def onDidCloseTerminal_def consistent_fold consistent_stop)
  next
    case ActiveEditorChanged
    then show ?thesis using that(1)
      by (simp add: deliver_def consistent_fold consistent_navigateCurrentPage)
  next
    case (Resume i r)
    then show ?thesis using that by (simp add: consistent_resume)
  qed
  have e1: "\<not> consistent (step rv opt h (Resume i Tick) w)"
    if "\<not> isStarted w" "i < length (pending w)" "pending w ! i = StartFrame AwaitStartTask"
      "rv \<noteq> SimpleServer_ts"
    using assigning_resume_breaks(1) [OF that(1,2,4,3)] by simp
  have e2: "\<not> consistent (step SimpleServer_ts opt h (Resume i (Det fetch_ok date_now)) w)"
    if "\<not> isStarted w" "i < length (pending w)" "pending w ! i = StartFrame (AwaitDetectServer url)"
      "detectServer SimpleServer_ts opt url fetch_ok date_now = Some res"
    using assigning_resume_breaks(2) [OF that(1,2,4,3)] by simp
  show ?thesis using a b c d e1 e2 start_noop [of w rv opt h] by blast
qed

text \<open>
  The claim as stated fails: \<open>start()\<close> checks \<open>isStarted\<close> at its entry only. When a
  \<open>stop()\<close> arrives while the command provider is pending, the invariant holds after the
  \<open>stop()\<close>; then \<open>start()\<close> resumes, launches the task and sets \<open>serverStarted\<close> to \<open>true\<close>
  with no editor subscription.
\<close>

theorem session_invariant_counterexample:
  "consistent (run Part000_plain dev_options
      [(empty_host, CallStart), (empty_host, CallStop)]
      (construct Part000_plain dev_options empty_host))
   \<and> \<not> consistent (run Part000_plain dev_options
      [(empty_host, CallStart), (empty_host, CallStop),
       (empty_host, Resume 0 (Cmd ''npm run dev'' [])), (empty_host, Resume 0 (Exec 1)),
       (empty_host, Resume 0 Tick)]
      (construct Part000_plain dev_options empty_host))
   \<and> editorChangeListener (run Part000_plain dev_options
      [(empty_host, CallStart), (empty_host, CallStop),
       (empty_host, Resume 0 (Cmd ''npm run dev'' [])), (empty_host, Resume 0 (Exec 1)),
       (empty_host, Resume 0 Tick)]
      (construct Part000_plain dev_options empty_host)) = None
   \<and> sessionState (run Part000_plain dev_options
      [(empty_host, CallStart), (empty_host, CallStop),
       (empty_host, Resume 0 (Cmd ''npm run dev'' [])), (empty_host, Resume 0 (Exec 1)),
       (empty_host, Resume 0 Tick)]
      (construct Part000_plain dev_options empty_host)) = Session_Started"
  by (simp add: consistent_def sessionState_def model_defs input_defs Let_def)

text \<open>
  The step that assigns \<open>serverStarted\<close>, taken while the session is started; the answer of
  the resolver to a navigation that a \<open>stop()\<close> has overtaken; and a second \<open>start()\<close>.
\<close>

theorem session_invariant_witness:
  "isStarted (run Part000_plain dev_options launch (construct Part000_plain dev_options empty_host))
   \<and> assigns_serverStarted Part000_plain
        (run Part000_plain dev_options launch (construct Part000_plain dev_options empty_host))
        (Resume 0 Tick)
   \<and> consistent (step Part000_plain dev_options empty_host (Resume 0 Tick)
        (run Part000_plain dev_options launch (construct Part000_plain dev_options empty_host)))
   \<and> pending (run Part000_plain dev_options
        [(editing_host, CallStart), (editing_host, ActiveEditorChanged), (editing_host, CallStop)]
        (construct Part000_plain dev_options editing_host))
      = [StartFrame AwaitGetStartCommand, NavFrame (AwaitResolveUrl ''/ws/a.md'')]
   \<and> \<not> isStarted (run Part000_plain dev_options
        [(editing_host, CallStart), (editing_host, ActiveEditorChanged), (editing_host, CallStop)]
        (construct Part000_plain dev_options editing_host))
   \<and> consistent (step Part000_plain dev_options editing_host (Resume 1 (Url (Some ''http://x/a'')))
        (run Part000_plain dev_options
          [(editing_host, CallStart), (editing_host, ActiveEditorChanged), (editing_host, CallStop)]
          (construct Part000_plain dev_options editing_host)))
   \<and> start Part000_plain dev_options live_host
        (run Part000_plain dev_options launch (construct Part000_plain dev_options empty_host))
      = run Part000_plain dev_options launch (construct Part000_plain dev_options empty_host)"
proof -
  let ?w = "run Part000_plain dev_options launch (construct Part000_plain dev_options empty_host)"
  let ?v = "run Part000_plain dev_options
        [(editing_host, CallStart), (editing_host, ActiveEditorChanged), (editing_host, CallStop)]
        (construct Part000_plain dev_options editing_host)"
  have a: "consistent ?w" "isStarted ?w" "pending ?w = [StartFrame AwaitStartTask]"
    by (simp_all add: consistent_def sessionState_def launch_def model_defs input_defs Let_def)
  have b: "consistent ?v" "\<not> isStarted ?v"
    "pending ?v = [StartFrame AwaitGetStartCommand, NavFrame (AwaitResolveUrl ''/ws/a.md'')]"
    by (simp_all add: consistent_def sessionState_def model_defs input_defs Let_def)
  have c: "assigns_serverStarted Part000_plain ?w (Resume 0 Tick)"
    by (simp add: a(3))
  have d: "\<not> assigns_serverStarted Part000_plain ?v (Resume 1 (Url (Some ''http://x/a'')))"
    unfolding assigns_serverStarted.simps b(3) by simp
  show ?thesis
    using session_invariant [of ?w Part000_plain dev_options empty_host "Resume 0 Tick" empty_host]
      session_invariant [of ?v Part000_plain dev_options editing_host
        "Resume 1 (Url (Some ''http://x/a''))" editing_host]
      session_invariant [of ?w Part000_plain dev_options empty_host "Resume 0 Tick" live_host]
      a b c d
    by simp
qed

section \<open>Termination from outside\<close>

lemma filter_removeAll: "filter P (removeAll d xs) = removeAll d (filter P xs)"
  by (induction xs) auto

lemma filter_removeAll_other: "\<not> P d \<Longrightarrow> filter P (removeAll d xs) = filter P xs"
  by (induction xs) auto

lemma wired_init_statusBar: "wired (init_statusBar opt w) = wired w"
  by (simp add: wired_def init_statusBar_fields)

lemma wired_registered:
  assumes "listeners w = []" "nextId w = 0" "disposables w = []"
    "editorChangeListener w = None" "taskHandler w = None"
  shows "wired (register OnDidCloseTerminal (register OnDidEndTask w))"
  using assms
  by (simp add: wired_def register_def subscribe_def addDisposable_def emit_def Let_def)

lemma wired_start: "wired w \<Longrightarrow> wired (start rv opt h w)"
  by (simp add: wired_def start_def startTask_def isStarted_def subscribe_def
      statusBar_call_def emit_def logger_info_def Let_def split: option.splits)

lemma wired_construct: "wired (construct rv opt h)"
proof -
  have i: "wired (register OnDidCloseTerminal (register OnDidEndTask initial))"
    by (rule wired_registered) (simp_all add: initial_def)
  have j: "wired (register OnDidCloseTerminal (register OnDidEndTask (init_statusBar opt initial)))"
    by (rule wired_registered) (simp_all add: init_statusBar_fields initial_def)
  show ?thesis
    by (simp add: construct_def Let_def i j wired_start wired_init_statusBar)
qed

lemma listeners_stop:
  "listeners (stop w)
     = (case taskHandler w of None \<Rightarrow> (\<lambda>l. l) | Some d \<Rightarrow> removeAll d)
         ((case editorChangeListener w of None \<Rightarrow> (\<lambda>l. l) | Some d \<Rightarrow> removeAll d) (listeners w))"
  by (simp add: stop_def statusBar_call_def dispose_handle_def emit_def Let_def split: option.splits)

lemma wired_stop: "wired w \<Longrightarrow> wired (stop w)"
  by (auto simp add: wired_def listeners_stop stop_clears disposables_stop filter_removeAll_other
      split: option.splits)

lemma wired_fold:
  assumes "\<And>v. wired v \<Longrightarrow> wired (f v)"
  shows "wired w \<Longrightarrow> wired (fold (\<lambda>d. f) ds w)"
  using assms by (induction ds arbitrary: w) simp_all

lemma wired_navigateCurrentPage: "wired (navigateCurrentPage rv h w) = wired w"
  by (simp add: wired_def navigateCurrentPage_fields)

lemma wired_resume:
  assumes "wired w"
  shows "wired (resume rv opt h i r w)"
proof -
  have st: "wired (settle i f w1)" if "resume_start rv opt h pc r w = Some (w1, pc1)"
    for pc w1 pc1 f
    using resume_start_keeps(1,2,3,6) [OF that] assms by (auto simp add: wired_def settle_fields)
  have nv: "wired (settle i f w1)" if "resume_nav rv h pc r w = Some (w1, pc1)"
    for pc w1 pc1 f
    using resume_nav_keeps [OF that] assms by (auto simp add: wired_def settle_fields)
  show ?thesis
    using assms st nv by (auto simp add: resume_def split: frame.splits option.splits)
qed

lemma wired_step:
  assumes "wired w" "e \<noteq> CallDispose"
  shows "wired (step rv opt h e w)"
  using assms
  by (cases e)
     (simp_all add: wired_start wired_stop toggle_def deliver_def wired_fold onDidEndTask_def
        onDidCloseTerminal_def wired_navigateCurrentPage wired_resume)

lemma wired_run:
  assumes "\<forall>(h, e) \<in> set es. e \<noteq> CallDispose"
  shows "wired w \<Longrightarrow> wired (run rv opt es w)"
  using assms by (induction es arbitrary: w) (auto simp add: wired_step)

lemma listeners_fold_dispose:
  "listeners (fold dispose_handle ds w) = fold removeAll ds (listeners w)"
  by (induction ds arbitrary: w) (simp_all add: dispose_handle_def emit_def)

lemma listeners_dispose:
  "listeners (dispose w) = fold removeAll (disposables w) (listeners (stop w))"
  by (simp add: dispose_def Let_def listeners_fold_dispose disposables_stop emit_def
      split: option.splits)

text \<open>
  C8. In every state that a controller reaches from its construction without \<open>dispose()\<close>,
  whatever was started, stopped or resumed in between, exactly one listener for ended tasks
  and one for closed terminals are registered, the two of the constructor. A task-ended or
  terminal-closed notification that carries the configured task name runs \<open>stop()\<close>: the editor
  subscription and the task handle are cleared and the session is Stopped. A notification
  with another name changes nothing. \<open>dispose()\<close> removes both listeners.
\<close>

theorem external_termination:
  assumes "\<forall>(h, e) \<in> set es. e \<noteq> CallDispose"
    and "w = run rv opt es (construct rv opt h0)"
  shows "filter (\<lambda>d. kindOf d = Some OnDidEndTask) (listeners w) = [Subscription OnDidEndTask 0]
    \<and> filter (\<lambda>d. kindOf d = Some OnDidCloseTerminal) (listeners w) = [Subscription OnDidCloseTerminal 1]
    \<and> step rv opt h (TaskEnded (taskName opt)) w = stop w
    \<and> step rv opt h (TerminalClosed (taskName opt)) w = stop w
    \<and> editorChangeListener (stop w) = None
    \<and> taskHandler (stop w) = None
    \<and> sessionState (stop w) = Session_Stopped
    \<and> (n \<noteq> taskName opt \<longrightarrow>
          step rv opt h (TaskEnded n) w = w \<and> step rv opt h (TerminalClosed n) w = w)
    \<and> filter (\<lambda>d. kindOf d = Some OnDidEndTask) (listeners (dispose w)) = []
    \<and> filter (\<lambda>d. kindOf d = Some OnDidCloseTerminal) (listeners (dispose w)) = []"
proof -
  have w: "wired w" unfolding assms(2) by (rule wired_run [OF assms(1) wired_construct])
  then have l: "filter (\<lambda>d. kindOf d = Some OnDidEndTask) (listeners w) = [Subscription OnDidEndTask 0]"
    "filter (\<lambda>d. kindOf d = Some OnDidCloseTerminal) (listeners w) = [Subscription OnDidCloseTerminal 1]"
    by (simp_all add: wired_def)
  have s: "wired (stop w)" using w by (rule wired_stop)
  have d: "filter (\<lambda>d. kindOf d = Some OnDidEndTask) (listeners (dispose w)) = []"
    "filter (\<lambda>d. kindOf d = Some OnDidCloseTerminal) (listeners (dispose w)) = []"
    using w s by (simp_all add: listeners_dispose wired_def filter_removeAll)
  show ?thesis
    using l d
    by (simp add: deliver_def onDidEndTask_def onDidCloseTerminal_def stop_clears sessionState_def)
qed

text \<open>
  A session that was stopped and started again, now on an adopted terminal: the
  notification still stops it.
\<close>

theorem external_termination_witness:
  "isStarted (run Part000_plain dev_options (launch @ [(empty_host, CallStop), (live_host, CallStart)])
      (construct Part000_plain dev_options empty_host))
   \<and> taskHandler (run Part000_plain dev_options (launch @ [(empty_host, CallStop), (live_host, CallStart)])
      (construct Part000_plain dev_options empty_host))
     = Some (TerminalHandle \<lparr>name = ''dev'', exitStatus = None\<rparr>)
   \<and> step Part000_plain dev_options empty_host (TaskEnded ''dev'')
        (run Part000_plain dev_options (launch @ [(empty_host, CallStop), (live_host, CallStart)])
          (construct Part000_plain dev_options empty_host))
     = stop (run Part000_plain dev_options (launch @ [(empty_host, CallStop), (live_host, CallStart)])
          (construct Part000_plain dev_options empty_host))
   \<and> step Part000_plain dev_options empty_host (TerminalClosed ''dev'')
        (run Part000_plain dev_options (launch @ [(empty_host, CallStop), (live_host, CallStart)])
          (construct Part000_plain dev_options empty_host))
     = stop (run Part000_plain dev_options (launch @ [(empty_host, CallStop), (live_host, CallStart)])
          (construct Part000_plain dev_options empty_host))
   \<and> taskHandler (stop (run Part000_plain dev_options
        (launch @ [(empty_host, CallStop), (live_host, CallStart)])
        (construct Part000_plain dev_options empty_host))) = None
   \<and> sessionState (stop (run Part000_plain dev_options
        (launch @ [(empty_host, CallStop), (live_host, CallStart)])
        (construct Part000_plain dev_options empty_host))) = Session_Stopped"
proof -
  let ?es = "launch @ [(empty_host, CallStop), (live_host, CallStart)]"
  let ?w = "run Part000_plain dev_options ?es (construct Part000_plain dev_options empty_host)"
  have a: "\<forall>(h, e) \<in> set ?es. e \<noteq> CallDispose" by (simp add: launch_def)
  have n: "taskName dev_options = ''dev''" by (simp add: dev_options_def)
  have s: "isStarted ?w" "taskHandler ?w = Some (TerminalHandle \<lparr>name = ''dev'', exitStatus = None\<rparr>)"
    by (simp_all add: launch_def live_host_def model_defs input_defs Let_def)
  from external_termination [OF a refl, of Part000_plain dev_options empty_host empty_host] s n
  show ?thesis by simp
qed

section \<open>The last opened url across sessions\<close>

text \<open>
  \<open>stop()\<close> resets \<open>currentUrl\<close> in every revision (\<open>stop_clears\<close>); \<open>start()\<close> resets it in the
  logger revision of \<^verbatim>\<open>part_000\<close> only, where \<open>_startTask\<close> begins with the reset.
\<close>

lemma start_resets_logger:
  "\<not> isStarted w \<Longrightarrow> currentUrl (start Part000_logger opt h w) = None"
  by (simp add: start_def startTask_def subscribe_def statusBar_call_def emit_def
      logger_info_def Let_def split: option.splits)

text \<open>
  C6. In \<^verbatim>\<open>src/src/SimpleServer.ts\<close> and in \<^verbatim>\<open>part_000\<close> without logger, \<open>start()\<close> does not
  reset \<open>currentUrl\<close>. After a session whose \<open>start()\<close> was overtaken by a \<open>stop()\<close>, the
  controller is not started and \<open>currentUrl\<close> holds the url that the late navigation recorded;
  the next \<open>start()\<close> passes the guard and keeps that value, and the first url the fresh
  session resolves, the same one, is not opened. The logger revision, on the same history,
  resets the value and opens the url.
\<close>

theorem stale_url_after_interrupted_start:
  "\<not> isStarted (run Part000_plain dev_options interrupted_session
        (construct Part000_plain dev_options editing_host))
   \<and> currentUrl (start Part000_plain dev_options editing_host
        (run Part000_plain dev_options interrupted_session
          (construct Part000_plain dev_options editing_host))) = Some ''http://x/a''
   \<and> filter isOpenPreview (effects_since
        (run Part000_plain dev_options interrupted_session
          (construct Part000_plain dev_options editing_host))
        (run Part000_plain dev_options (interrupted_session @ fresh_session)
          (construct Part000_plain dev_options editing_host))) = []
   \<and> \<not> isStarted (run SimpleServer_ts dev_options interrupted_session
        (construct SimpleServer_ts dev_options editing_host))
   \<and> currentUrl (start SimpleServer_ts dev_options editing_host
        (run SimpleServer_ts dev_options interrupted_session
          (construct SimpleServer_ts dev_options editing_host))) = Some ''http://x/a''
   \<and> filter isOpenPreview (effects_since
        (run SimpleServer_ts dev_options interrupted_session
          (construct SimpleServer_ts dev_options editing_host))
        (run SimpleServer_ts dev_options (interrupted_session @ fresh_session)
          (construct SimpleServer_ts dev_options editing_host))) = []
   \<and> \<not> isStarted (run Part000_logger dev_options interrupted_session
        (construct Part000_logger dev_options editing_host))
   \<and> currentUrl (start Part000_logger dev_options editing_host
        (run Part000_logger dev_options interrupted_session
          (construct Part000_logger dev_options editing_host))) = None
   \<and> filter isOpenPreview (effects_since
        (run Part000_logger dev_options interrupted_session
          (construct Part000_logger dev_options editing_host))
        (run Part000_logger dev_options (interrupted_session @ fresh_session)
          (construct Part000_logger dev_options editing_host)))
      = [OpenPreview ''http://x/a'' Beside True]"
  unfolding restarted_plain restarted_ts restarted_logger
    interrupted_plain interrupted_ts interrupted_logger
  by (simp add: effects_since_def model_defs input_defs Let_def)

end
